theory Spec2Isabelle
  imports Main "HOL-Library.Char_ord"
begin

unbundle bit_operations_syntax

section \<open>The CORS filter of vpxyz/cors (cors.go)\<close>

text \<open>
  A shallow embedding of \<^verbatim>\<open>cors.go\<close>: the byte-level helpers \<^verbatim>\<open>toLowerCase\<close>,
  \<^verbatim>\<open>trimSpace\<close> and \<^verbatim>\<open>normalizeHeaders\<close>, the configuration compiler
  \<^verbatim>\<open>initialize\<close>, the matchers \<^verbatim>\<open>isOriginAllowed\<close>, \<^verbatim>\<open>isMethodAllowed\<close>,
  \<^verbatim>\<open>areReqHeadersAllowed\<close>, and the request handler built by \<^verbatim>\<open>Filter\<close>.

  Conventions. A Go \<^verbatim>\<open>string\<close> or \<^verbatim>\<open>[]byte\<close> is a \<^typ>\<open>string\<close>, one \<^typ>\<open>char\<close> per byte.
  The library functions of \<^verbatim>\<open>strings\<close>, \<^verbatim>\<open>bytes\<close> and \<^verbatim>\<open>regexp\<close> that the code calls
  are modelled on ASCII text, which is what HTTP tokens and origins are made of.
  A run-time panic of Go is a value \<open>Inl p\<close> of the result type \<open>panic + 'a\<close>.
  The optional logger only writes diagnostics and is left out.
\<close>

subsection \<open>Panics and slicing\<close>

datatype panic =
    SliceBoundsOutOfRange nat nat  \<comment> \<open>\<^verbatim>\<open>s[lo:hi]\<close> with \<^verbatim>\<open>lo > hi\<close> or \<^verbatim>\<open>hi > len(s)\<close>\<close>
  | RegexpParseError               \<comment> \<open>\<^verbatim>\<open>regexp.MustCompile\<close> on a pattern it rejects\<close>

text \<open>Go's slice expression \<^verbatim>\<open>s[lo:hi]\<close> on a slice whose capacity is its length.\<close>

definition slice :: "'a list \<Rightarrow> nat \<Rightarrow> nat \<Rightarrow> panic + 'a list" where
  "slice s lo hi =
     (if lo \<le> hi \<and> hi \<le> length s then Inr (take (hi - lo) (drop lo s))
      else Inl (SliceBoundsOutOfRange lo hi))"

subsection \<open>toLowerCase\<close>

definition isUpperAZ :: "char \<Rightarrow> bool" where
  "isUpperAZ c = (CHR ''A'' \<le> c \<and> c \<le> CHR ''Z'')"

text \<open>The byte operation \<^verbatim>\<open>c ^ 0x20\<close>.\<close>

definition xor0x20 :: "char \<Rightarrow> char" where
  "xor0x20 c = char_of ((of_char c :: nat) XOR 32)"

text \<open>\<^verbatim>\<open>for i, c := range s { if 'A' <= c && c <= 'Z' { s[i] = c ^ 0x20 } }\<close>\<close>

fun toLowerCase :: "string \<Rightarrow> string" where
  "toLowerCase [] = []"
| "toLowerCase (c # s) = (if isUpperAZ c then xor0x20 c else c) # toLowerCase s"

subsection \<open>trimSpace\<close>

text \<open>
  \<^verbatim>\<open>
  func trimSpace(s []byte) []byte {
      start := 0
      end := len(s) - 1
      for ; start < len(s) && s[start] == ' '; start++ {
      }
      for ; end > 0 && s[end] == ' '; end-- {
      }
      return s[start : end+1]
  }
  \<close>
  The two loops are the two functions below; \<^verbatim>\<open>end\<close> is a Go \<^verbatim>\<open>int\<close> and starts
  at \<open>-1\<close> on the empty slice, so it is an \<^typ>\<open>int\<close> here. After the second loop
  \<open>end + 1\<close> is never negative.
\<close>

function trimSpace_start :: "string \<Rightarrow> nat \<Rightarrow> nat" where
  "trimSpace_start s start =
     (if start < length s \<and> s ! start = CHR '' '' then trimSpace_start s (start + 1)
      else start)"
  by pat_completeness auto
termination
  by (relation "measure (\<lambda>(s, start). length s - start)") auto

function trimSpace_end :: "string \<Rightarrow> int \<Rightarrow> int" where
  "trimSpace_end s e =
     (if e > 0 \<and> s ! nat e = CHR '' '' then trimSpace_end s (e - 1) else e)"
  by pat_completeness auto
termination
  by (relation "measure (\<lambda>(s, e). nat e)") auto

declare trimSpace_start.simps [simp del]
declare trimSpace_end.simps [simp del]

definition trimSpace :: "string \<Rightarrow> panic + string" where
  "trimSpace s =
     (let start = trimSpace_start s 0;
          e = trimSpace_end s (int (length s) - 1)
      in slice s start (nat (e + 1)))"

subsection \<open>normalizeHeaders\<close>

text \<open>
  \<^verbatim>\<open>
  func normalizeHeaders(headers string) (ss [][]byte) {
      const sep byte = ','
      ss = make([][]byte, 0, 16)
      start := 0
      s := []byte(headers)
      for i, c := range s {
          if 'A' <= c && c <= 'Z' { s[i] = c ^ 0x20; continue }
          if s[i] == sep && start == i { start++; continue }
          if s[i] == sep {
              ss = append(ss, trimSpace(s[start:i]))
              start = i + 1
          }
      }
      if start < len(s) { ss = append(ss, trimSpace(s[start:len(s)])) }
      if len(ss) == 0 { ss = append(ss, trimSpace(s[start:len(s)])) }
      return ss
  }
  \<close>
  The loop state is the byte array \<open>s\<close> (lower-cased in place as \<open>i\<close> advances), the
  index \<open>i\<close>, \<open>start\<close> and the tokens \<open>ss\<close>. A token is a sub-slice of \<open>s\<close> below
  index \<open>i\<close>; the loop writes only at index \<open>i\<close> and never goes back, so the bytes of
  a token are those it had when it was appended.
\<close>

definition sep :: char where
  "sep = CHR '',''"

definition trimSlice :: "string \<Rightarrow> nat \<Rightarrow> nat \<Rightarrow> panic + string" where
  "trimSlice s lo hi = (case slice s lo hi of Inl p \<Rightarrow> Inl p | Inr t \<Rightarrow> trimSpace t)"

function normalizeHeaders_loop ::
  "string \<Rightarrow> nat \<Rightarrow> nat \<Rightarrow> string list \<Rightarrow> panic + (string \<times> nat \<times> string list)" where
  "normalizeHeaders_loop s i start ss =
     (if i < length s then
        (let c = s ! i in
         if isUpperAZ c then normalizeHeaders_loop (s[i := xor0x20 c]) (i + 1) start ss
         else if c = sep \<and> start = i then normalizeHeaders_loop s (i + 1) (start + 1) ss
         else if c = sep then
           (case trimSlice s start i of
              Inl p \<Rightarrow> Inl p
            | Inr t \<Rightarrow> normalizeHeaders_loop s (i + 1) (i + 1) (ss @ [t]))
         else normalizeHeaders_loop s (i + 1) start ss)
      else Inr (s, start, ss))"
  by pat_completeness auto
termination
  by (relation "measure (\<lambda>(s, i, start, ss). length s - i)") auto

declare normalizeHeaders_loop.simps [simp del]

definition normalizeHeaders :: "string \<Rightarrow> panic + string list" where
  "normalizeHeaders headers =
     (case normalizeHeaders_loop headers 0 0 [] of
        Inl p \<Rightarrow> Inl p
      | Inr (s, start, ss) \<Rightarrow>
          (case (if start < length s
                 then (case trimSlice s start (length s) of
                         Inl p \<Rightarrow> Inl p | Inr t \<Rightarrow> Inr (ss @ [t]))
                 else Inr ss) of
             Inl p \<Rightarrow> Inl p
           | Inr ss1 \<Rightarrow>
               if length ss1 = 0
               then (case trimSlice s start (length s) of
                       Inl p \<Rightarrow> Inl p | Inr t \<Rightarrow> Inr (ss1 @ [t]))
               else Inr ss1))"

subsection \<open>Library functions of Go used by the compiler\<close>

text \<open>\<^verbatim>\<open>strings.Split(s, ",")\<close> and \<^verbatim>\<open>bytes.Split(s, []byte(","))\<close>: every separator
  ends a token, empty tokens are kept, and the result is never empty.\<close>

fun Split :: "string \<Rightarrow> char \<Rightarrow> string list" where
  "Split [] d = [[]]"
| "Split (c # s) d =
     (if c = d then [] # Split s d
      else (case Split s d of [] \<Rightarrow> [[c]] | t # ts \<Rightarrow> (c # t) # ts))"

text \<open>\<^verbatim>\<open>bytes.ToUpper\<close> on ASCII bytes: the letters \<open>a\<close> to \<open>z\<close> are mapped to
  \<open>A\<close> to \<open>Z\<close>. Go also maps the letters of other scripts and rewrites bytes that
  are not valid UTF-8; the model leaves every byte above \<open>0x7F\<close> as it is.\<close>

definition isLowerAZ :: "char \<Rightarrow> bool" where
  "isLowerAZ c = (CHR ''a'' \<le> c \<and> c \<le> CHR ''z'')"

definition ToUpper :: "string \<Rightarrow> string" where
  "ToUpper s = map (\<lambda>c. if isLowerAZ c then char_of ((of_char c :: nat) - 32) else c) s"

text \<open>\<^verbatim>\<open>strings.TrimSpace\<close> on ASCII text: the ASCII white space of Go is
  \<^verbatim>\<open>'\t', '\n', '\v', '\f', '\r', ' '\<close>. Go also trims the white space beyond ASCII,
  such as U+0085 and U+00A0; the model does not.\<close>

definition isSpace :: "char \<Rightarrow> bool" where
  "isSpace c = (c = CHR '' '' \<or> (CHR 0x09 \<le> c \<and> c \<le> CHR 0x0D))"

definition TrimSpace :: "string \<Rightarrow> string" where
  "TrimSpace s = rev (dropWhile isSpace (rev (dropWhile isSpace s)))"

text \<open>\<^verbatim>\<open>strings.Replace(s, old, new, -1)\<close> for a non-empty \<open>old\<close>: the
  non-overlapping occurrences of \<open>old\<close>, from the left.\<close>

function Replace :: "string \<Rightarrow> string \<Rightarrow> string \<Rightarrow> string" where
  "Replace s old new =
     (if s = [] \<or> old = [] then s
      else if take (length old) s = old then new @ Replace (drop (length old) s) old new
      else hd s # Replace (tl s) old new)"
  by pat_completeness auto
termination
  by (relation "measure (\<lambda>(s, old, new). length s)") auto

declare Replace.simps [simp del]

text \<open>\<^verbatim>\<open>strconv.Itoa\<close>.\<close>

function digits :: "nat \<Rightarrow> string" where
  "digits n =
     (if n < 10 then [char_of (48 + n)] else digits (n div 10) @ [char_of (48 + n mod 10)])"
  by pat_completeness auto
termination
  by (relation "measure id") auto

declare digits.simps [simp del]

definition Itoa :: "int \<Rightarrow> string" where
  "Itoa i = (if i < 0 then CHR ''-'' # digits (nat (- i)) else digits (nat i))"

subsection \<open>The regular expressions the compiler builds\<close>

text \<open>
  \<^verbatim>\<open>initialize\<close> hands \<^verbatim>\<open>regexp.MustCompile\<close> only strings of the form
  \<^verbatim>\<open>Replace(Replace(QuoteMeta(o), "\\*", ".*"), "\\?", ".")\<close>. Such a pattern is a
  sequence of escaped metacharacters \<^verbatim>\<open>\c\<close>, plain characters, \<^verbatim>\<open>.*\<close> and \<^verbatim>\<open>.\<close>;
  \<open>MustCompile\<close> parses this fragment and answers \<open>None\<close> on anything else.
  \<^verbatim>\<open>MatchString\<close> is unanchored: it looks for a match anywhere in the subject.
  Go's \<^verbatim>\<open>.\<close> does not match a line feed. The model works on bytes: it is exact
  on ASCII patterns and subjects, where a byte is a character. Beyond ASCII Go's
  \<^verbatim>\<open>.\<close> matches one UTF-8 code point and \<^verbatim>\<open>MustCompile\<close> refuses invalid UTF-8.
\<close>

definition backslash :: char where
  "backslash = CHR 0x5C"

definition specialBytes :: string where
  "specialBytes = backslash # ''.+*?()|[]{}^$''"

fun QuoteMeta :: "string \<Rightarrow> string" where
  "QuoteMeta [] = []"
| "QuoteMeta (c # s) =
     (if c \<in> set specialBytes then backslash # c # QuoteMeta s else c # QuoteMeta s)"

datatype rx = Lit char | AnyChar | AnySeq

type_synonym Regexp = "rx list"

fun MustCompile :: "string \<Rightarrow> Regexp option" where
  "MustCompile [] = Some []"
| "MustCompile [c] =
     (if c = CHR ''.'' then Some [AnyChar]
      else if c \<in> set specialBytes then None
      else Some [Lit c])"
| "MustCompile (c # d # s) =
     (if c = backslash then
        (if d \<in> set specialBytes then map_option ((#) (Lit d)) (MustCompile s) else None)
      else if c = CHR ''.'' then
        (if d = CHR ''*'' then map_option ((#) AnySeq) (MustCompile s)
         else map_option ((#) AnyChar) (MustCompile (d # s)))
      else if c \<in> set specialBytes then None
      else map_option ((#) (Lit c)) (MustCompile (d # s)))"

text \<open>\<open>matchHere p s\<close>: the pattern matches a prefix of \<open>s\<close>.\<close>

fun matchHere :: "Regexp \<Rightarrow> string \<Rightarrow> bool" where
  "matchHere [] s = True"
| "matchHere (Lit c # p) [] = False"
| "matchHere (Lit c # p) (d # s) = (c = d \<and> matchHere p s)"
| "matchHere (AnyChar # p) [] = False"
| "matchHere (AnyChar # p) (d # s) = (d \<noteq> CHR 0x0A \<and> matchHere p s)"
| "matchHere (AnySeq # p) [] = matchHere p []"
| "matchHere (AnySeq # p) (d # s) =
     (matchHere p (d # s) \<or> (d \<noteq> CHR 0x0A \<and> matchHere (AnySeq # p) s))"

fun MatchString :: "Regexp \<Rightarrow> string \<Rightarrow> bool" where
  "MatchString p [] = matchHere p []"
| "MatchString p (d # s) = (matchHere p (d # s) \<or> MatchString p s)"

subsection \<open>Configuration and compiled filter\<close>

definition DefaultAllowedMethods :: string where
  "DefaultAllowedMethods = ''GET,POST,HEAD,OPTIONS''"

definition DefaultAllowedHeaders :: string where
  "DefaultAllowedHeaders =
     ''Origin,Accept,Content-Type,Accept-Language,Content-Language,Last-Event-ID''"

definition AccessControlAllowOrigin :: string where
  "AccessControlAllowOrigin = ''Access-Control-Allow-Origin''"

definition AccessControlExposeHeaders :: string where
  "AccessControlExposeHeaders = ''Access-Control-Expose-Headers''"

definition AccessControlControlMaxAge :: string where
  "AccessControlControlMaxAge = ''Access-Control-Max-Age''"

definition AccessControlAllowMethods :: string where
  "AccessControlAllowMethods = ''Access-Control-Allow-Methods''"

definition AccessControlAllowHeaders :: string where
  "AccessControlAllowHeaders = ''Access-Control-Allow-Headers''"

definition AccessControlAllowCredentials :: string where
  "AccessControlAllowCredentials = ''Access-Control-Allow-Credentials''"

definition AccessControlRequestMethod :: string where
  "AccessControlRequestMethod = ''Access-Control-Request-Method''"

definition AccessControlRequestHeaders :: string where
  "AccessControlRequestHeaders = ''Access-Control-Request-Headers''"

definition OriginHeader :: string where
  "OriginHeader = ''Origin''"

definition VaryHeader :: string where
  "VaryHeader = ''Vary''"

definition MethodOptions :: string where
  "MethodOptions = ''OPTIONS''"

definition StatusOK :: nat where
  "StatusOK = 200"

definition StatusForbidden :: nat where
  "StatusForbidden = 403"

definition StatusMethodNotAllowed :: nat where
  "StatusMethodNotAllowed = 405"

text \<open>The struct \<^verbatim>\<open>Config\<close>, without its logger. An option that the caller leaves
  out has Go's zero value: the empty string, \<open>0\<close>, \<open>False\<close>.\<close>

record Config =
  AllowedOrigins :: string
  AllowedMethods :: string
  AllowedHeaders :: string
  ExposedHeaders :: string
  MaxAge :: int
  AllowCredentials :: bool
  ForwardRequest :: bool

text \<open>The struct \<^verbatim>\<open>cors\<close>, without its logger. The two \<^verbatim>\<open>map[string]bool\<close> are
  maps to \<^typ>\<open>bool\<close>; reading a key that is absent gives \<open>False\<close>, as in Go.\<close>

record cors =
  allowedRegexOrigins :: "Regexp list"
  allowedStaticOrigins :: "string list"
  allowedSuffixOrigins :: "string list"
  allowedMethods :: "string \<rightharpoonup> bool"
  allowedHeaders :: "string \<rightharpoonup> bool"
  allowedHeadersString :: string
  allowedMethodsString :: string
  hostName :: string
  maxAge :: string
  exposedHeaders :: string
  exposeHeader :: bool
  allowAllOrigins :: bool
  allowAllHeaders :: bool
  allowCredentials :: bool
  forwardRequest :: bool

definition index :: "(string \<rightharpoonup> bool) \<Rightarrow> string \<Rightarrow> bool" where
  "index m k = (case m k of None \<Rightarrow> False | Some b \<Rightarrow> b)"

text \<open>\<^verbatim>\<open>for _, a := range allowed { m[string(a)] = true }\<close>\<close>

fun allowed_loop :: "(string \<rightharpoonup> bool) \<Rightarrow> string list \<Rightarrow> (string \<rightharpoonup> bool)" where
  "allowed_loop m [] = m"
| "allowed_loop m (a # as) = allowed_loop (m(a \<mapsto> True)) as"

definition allowed :: "string list \<Rightarrow> (string \<rightharpoonup> bool)" where
  "allowed as = allowed_loop Map.empty as"

subsection \<open>initialize\<close>

text \<open>The body of the loop over the origins: the static, the suffix and the regular
  expression bucket, in the order of the \<^verbatim>\<open>if\<close> chain of the source.
  \<^verbatim>\<open>strings.IndexAny(o, "*") == -1\<close> says that the entry has no \<open>*\<close>;
  \<^verbatim>\<open>strings.Index(o, "*.") == 0\<close> says that the entry starts with \<open>*.\<close>.
  The entry \<^verbatim>\<open>o\<close> of the source is \<open>orig\<close> here.\<close>

definition initOrigin :: "cors \<Rightarrow> string \<Rightarrow> panic + cors" where
  "initOrigin c orig =
     (if CHR ''*'' \<notin> set orig then
        Inr (c\<lparr>allowedStaticOrigins := allowedStaticOrigins c @ [orig]\<rparr>)
      else if take 2 orig = ''*.'' then
        Inr (c\<lparr>allowedSuffixOrigins := allowedSuffixOrigins c @ [drop 2 orig]\<rparr>)
      else if CHR ''*'' \<in> set orig \<or> CHR ''?'' \<in> set orig then
        (let p = QuoteMeta (TrimSpace orig);
             p1 = Replace p [backslash, CHR ''*''] ''.*'';
             p2 = Replace p1 [backslash, CHR ''?''] ''.''
         in case MustCompile p2 of
              None \<Rightarrow> Inl RegexpParseError
            | Some r \<Rightarrow> Inr (c\<lparr>allowedRegexOrigins := allowedRegexOrigins c @ [r]\<rparr>))
      else Inr c)"

fun initOrigins_loop :: "cors \<Rightarrow> string list \<Rightarrow> panic + cors" where
  "initOrigins_loop c [] = Inr c"
| "initOrigins_loop c (orig # origins) =
     (case initOrigin c orig of Inl p \<Rightarrow> Inl p | Inr c1 \<Rightarrow> initOrigins_loop c1 origins)"

definition initOrigins :: "Config \<Rightarrow> cors \<Rightarrow> panic + cors" where
  "initOrigins config c =
     (if length (AllowedOrigins config) > 0 \<and> AllowedOrigins config \<noteq> ''*'' then
        (case initOrigins_loop c (Split (AllowedOrigins config) (CHR '','')) of
           Inl p \<Rightarrow> Inl p
         | Inr c1 \<Rightarrow> Inr (c1\<lparr>allowAllOrigins := False\<rparr>))
      else Inr c)"

definition initMethods :: "Config \<Rightarrow> cors \<Rightarrow> cors" where
  "initMethods config c =
     (if length (AllowedMethods config) > 0 then
        c\<lparr>allowedMethods := allowed (Split (ToUpper (AllowedMethods config)) (CHR '','')),
          allowedMethodsString := AllowedMethods config\<rparr>
      else c)"

text \<open>\<^verbatim>\<open>config.AllowedHeaders == strings.TrimSpace("*")\<close>: the right-hand side is the
  constant \<open>*\<close>.\<close>

definition initHeaders :: "Config \<Rightarrow> cors \<Rightarrow> panic + cors" where
  "initHeaders config c =
     (if length (AllowedHeaders config) > 0 then
        (if AllowedHeaders config = TrimSpace ''*'' then
           Inr (c\<lparr>allowAllHeaders := True, allowedHeadersString := ''*''\<rparr>)
         else
           (case normalizeHeaders (AllowedHeaders config) of
              Inl p \<Rightarrow> Inl p
            | Inr headers \<Rightarrow>
                Inr (c\<lparr>allowedHeaders := allowed headers,
                       allowedHeadersString := AllowedHeaders config\<rparr>)))
      else Inr c)"

definition initMaxAge :: "Config \<Rightarrow> cors \<Rightarrow> cors" where
  "initMaxAge config c =
     (if MaxAge config > 0 then c\<lparr>maxAge := Itoa (MaxAge config)\<rparr> else c)"

definition initExposedHeaders :: "Config \<Rightarrow> cors \<Rightarrow> cors" where
  "initExposedHeaders config c =
     (if length (ExposedHeaders config) > 0 then
        c\<lparr>exposedHeaders := ExposedHeaders config, exposeHeader := True\<rparr>
      else c)"

definition initCredentials :: "Config \<Rightarrow> cors \<Rightarrow> cors" where
  "initCredentials config c =
     (if AllowCredentials config \<and> allowAllOrigins c then c
      else c\<lparr>allowCredentials := AllowCredentials config\<rparr>)"

text \<open>The composite literal at the head of \<^verbatim>\<open>initialize\<close>; every field it does not
  name has its zero value.\<close>

definition initDefault :: "panic + cors" where
  "initDefault =
     (case normalizeHeaders DefaultAllowedHeaders of
        Inl p \<Rightarrow> Inl p
      | Inr headers \<Rightarrow>
          Inr \<lparr>allowedRegexOrigins = [], allowedStaticOrigins = [], allowedSuffixOrigins = [],
               allowedMethods = allowed (Split DefaultAllowedMethods (CHR '','')),
               allowedHeaders = allowed headers,
               allowedHeadersString = DefaultAllowedHeaders,
               allowedMethodsString = DefaultAllowedMethods,
               hostName = [], maxAge = ''1800'', exposedHeaders = [],
               exposeHeader = False, allowAllOrigins = True, allowAllHeaders = False,
               allowCredentials = False, forwardRequest = False\<rparr>)"

definition initialize :: "Config \<Rightarrow> panic + cors" where
  "initialize config =
     (case initDefault of
        Inl p \<Rightarrow> Inl p
      | Inr c0 \<Rightarrow>
          (case initOrigins config (c0\<lparr>forwardRequest := ForwardRequest config\<rparr>) of
             Inl p \<Rightarrow> Inl p
           | Inr c1 \<Rightarrow>
               (case initHeaders config (initMethods config c1) of
                  Inl p \<Rightarrow> Inl p
                | Inr c2 \<Rightarrow>
                    Inr (initCredentials config
                          (initExposedHeaders config (initMaxAge config c2))))))"

subsection \<open>The matchers\<close>

text \<open>\<^verbatim>\<open>strings.HasSuffix(origin, o)\<close>.\<close>

definition HasSuffix :: "string \<Rightarrow> string \<Rightarrow> bool" where
  "HasSuffix s suffix =
     (length s \<ge> length suffix \<and> drop (length s - length suffix) s = suffix)"

definition isOriginAllowed :: "cors \<Rightarrow> string \<Rightarrow> bool" where
  "isOriginAllowed c origin =
     (if allowAllOrigins c then True
      else if list_ex (\<lambda>orig. orig = origin) (allowedStaticOrigins c) then True
      else if list_ex (\<lambda>orig. length origin \<ge> length orig \<and> HasSuffix origin orig)
                (allowedSuffixOrigins c) then True
      else if list_ex (\<lambda>r. MatchString r origin) (allowedRegexOrigins c) then True
      else False)"

definition isMethodAllowed :: "cors \<Rightarrow> string \<Rightarrow> bool" where
  "isMethodAllowed c method = index (allowedMethods c) method"

fun areReqHeadersAllowed_loop :: "cors \<Rightarrow> string list \<Rightarrow> bool" where
  "areReqHeadersAllowed_loop c [] = True"
| "areReqHeadersAllowed_loop c (header # hs) =
     (if \<not> index (allowedHeaders c) header then False else areReqHeadersAllowed_loop c hs)"

definition areReqHeadersAllowed :: "cors \<Rightarrow> string \<Rightarrow> panic + bool" where
  "areReqHeadersAllowed c reqHeaders =
     (if allowAllHeaders c \<or> length reqHeaders = 0 then Inr True
      else (case normalizeHeaders reqHeaders of
              Inl p \<Rightarrow> Inl p
            | Inr hs \<Rightarrow> Inr (areReqHeadersAllowed_loop c hs)))"

subsection \<open>The request handler\<close>

text \<open>
  A request is its method and its header fields; \<^verbatim>\<open>r.Header.Get(k)\<close> is the first
  value stored under \<open>k\<close>, or the empty string. What the handler does to the
  \<^verbatim>\<open>http.ResponseWriter\<close> is recorded in a \<open>response\<close>: the header fields it adds with
  \<^verbatim>\<open>w.Header().Add\<close>, in order, and how it ends: by \<^verbatim>\<open>next.ServeHTTP(w, r)\<close> or by
  \<^verbatim>\<open>w.WriteHeader(status)\<close>.
\<close>

record request =
  Method :: string
  Header :: "(string \<times> string) list"

definition Get :: "(string \<times> string) list \<Rightarrow> string \<Rightarrow> string" where
  "Get h k = (case map_of h k of None \<Rightarrow> [] | Some v \<Rightarrow> v)"

datatype outcome = ServeNext | WriteHeader nat

record response =
  Added :: "(string \<times> string) list"
  Outcome :: outcome

text \<open>The preflight branch of the handler, from the second \<^verbatim>\<open>Vary\<close> on; \<open>h\<close> holds
  the fields added so far.\<close>

definition preflight ::
  "cors \<Rightarrow> request \<Rightarrow> (string \<times> string) list \<Rightarrow> panic + response" where
  "preflight c r h =
     (let h1 = h @ [(VaryHeader,
                     AccessControlRequestMethod @ '', '' @ AccessControlRequestHeaders)];
          acReqMethod = Get (Header r) AccessControlRequestMethod
      in if \<not> isMethodAllowed c acReqMethod then
           Inr \<lparr>Added = h1, Outcome = WriteHeader StatusMethodNotAllowed\<rparr>
         else
           (let acReqHeaders = Get (Header r) AccessControlRequestHeaders
            in case areReqHeadersAllowed c acReqHeaders of
                 Inl p \<Rightarrow> Inl p
               | Inr ok \<Rightarrow>
                   if \<not> ok then Inr \<lparr>Added = h1, Outcome = WriteHeader StatusForbidden\<rparr>
                   else
                     (let h2 = h1 @ [(AccessControlAllowMethods, allowedMethodsString c)];
                          h3 = (if allowAllHeaders c
                                then h2 @ [(AccessControlAllowHeaders, acReqHeaders)]
                                else h2 @ [(AccessControlAllowHeaders,
                                            allowedHeadersString c)]);
                          h4 = (if allowCredentials c
                                then h3 @ [(AccessControlAllowCredentials, ''true'')]
                                else h3);
                          h5 = (if maxAge c \<noteq> ''0''
                                then h4 @ [(AccessControlControlMaxAge, maxAge c)]
                                else h4)
                      in if forwardRequest c then Inr \<lparr>Added = h5, Outcome = ServeNext\<rparr>
                         else Inr \<lparr>Added = h5, Outcome = WriteHeader StatusOK\<rparr>)))"

text \<open>The closure \<^verbatim>\<open>filter\<close> of \<^verbatim>\<open>Filter\<close>, for a compiled \<open>c\<close>.\<close>

definition filter_cors :: "cors \<Rightarrow> request \<Rightarrow> panic + response" where
  "filter_cors c r =
     (let origin = Get (Header r) OriginHeader
      in if origin = [] then Inr \<lparr>Added = [], Outcome = ServeNext\<rparr>
         else
           (let h0 = [(VaryHeader, OriginHeader)]
            in if \<not> isOriginAllowed c origin then
                 Inr \<lparr>Added = h0, Outcome = WriteHeader StatusForbidden\<rparr>
               else if \<not> isMethodAllowed c (Method r) then
                 Inr \<lparr>Added = h0, Outcome = WriteHeader StatusMethodNotAllowed\<rparr>
               else
                 (let h1 = h0 @ [(AccessControlAllowOrigin, origin)]
                  in if Method r \<noteq> MethodOptions then
                       (let h2 = (if exposeHeader c
                                  then h1 @ [(AccessControlExposeHeaders, exposedHeaders c)]
                                  else h1);
                            h3 = (if allowCredentials c
                                  then h2 @ [(AccessControlAllowCredentials, ''true'')]
                                  else h2)
                        in Inr \<lparr>Added = h3, Outcome = ServeNext\<rparr>)
                     else preflight c r h1)))"

text \<open>\<^verbatim>\<open>Filter(config)\<close> compiles the configuration once and serves every request
  with the closure; a panic of \<^verbatim>\<open>initialize\<close> leaves no handler.\<close>

definition Filter :: "Config \<Rightarrow> request \<Rightarrow> panic + response" where
  "Filter config r =
     (case initialize config of Inl p \<Rightarrow> Inl p | Inr c \<Rightarrow> filter_cors c r)"

text \<open>The field names that the handler has added to a response, the values it has
  added under one name, and how the handler ended. A panic leaves no response: no
  field and no outcome.\<close>

definition fields :: "panic + response \<Rightarrow> string list" where
  "fields res = (case res of Inl p \<Rightarrow> [] | Inr w \<Rightarrow> map fst (Added w))"

definition valuesOf :: "string \<Rightarrow> panic + response \<Rightarrow> string list" where
  "valuesOf k res =
     (case res of Inl p \<Rightarrow> [] | Inr w \<Rightarrow> map snd (filter (\<lambda>kv. fst kv = k) (Added w)))"

definition status :: "panic + response \<Rightarrow> outcome option" where
  "status res = (case res of Inl p \<Rightarrow> None | Inr w \<Rightarrow> Some (Outcome w))"

text \<open>\<^verbatim>\<open>strings.Join(ss, ",")\<close>, to feed a normalized list back to
  \<open>normalizeHeaders\<close>.\<close>

fun Join :: "string list \<Rightarrow> string" where
  "Join [] = []"
| "Join [t] = t"
| "Join (t # u # ts) = t @ CHR '','' # Join (u # ts)"

text \<open>What the two calls of \<^verbatim>\<open>strings.Replace\<close> make of \<^verbatim>\<open>QuoteMeta(t)\<close>, character by
  character of \<open>t\<close>: after the first call and after the second. They are used to show
  that \<^verbatim>\<open>regexp.MustCompile\<close> accepts every pattern that \<^verbatim>\<open>initialize\<close> builds.\<close>

fun star1 :: "string \<Rightarrow> string" where
  "star1 [] = []"
| "star1 (c # s) =
     (if c = CHR ''*'' then ''.*'' @ star1 s
      else if c \<in> set specialBytes then backslash # c # star1 s else c # star1 s)"

fun star2 :: "string \<Rightarrow> string" where
  "star2 [] = []"
| "star2 (c # s) =
     (if c = CHR ''*'' then ''.*'' @ star2 s
      else if c = CHR ''?'' then ''.'' @ star2 s
      else if c \<in> set specialBytes then backslash # c # star2 s else c # star2 s)"

text \<open>The library models above are exact on ASCII text, that is on bytes up to
  \<open>0x7F\<close>; facts that depend on them are stated for ASCII configuration strings and
  origins.\<close>

definition isASCII :: "string \<Rightarrow> bool" where
  "isASCII s = list_all (\<lambda>c. c \<le> CHR 0x7F) s"

text \<open>The zero value \<^verbatim>\<open>Config{}\<close>; a composite literal such as
  \<^verbatim>\<open>Config{AllowedOrigins: "http://foobar.com"}\<close> is an update of it.\<close>

definition zeroConfig :: Config where
  "zeroConfig = \<lparr>AllowedOrigins = [], AllowedMethods = [], AllowedHeaders = [],
                  ExposedHeaders = [], MaxAge = 0, AllowCredentials = False,
                  ForwardRequest = False\<rparr>"

text \<open>A compiled filter without its three origin buckets, to say what the loop over
  the origins leaves alone.\<close>

definition noBuckets :: "cors \<Rightarrow> cors" where
  "noBuckets c = c\<lparr>allowedRegexOrigins := [], allowedStaticOrigins := [],
                   allowedSuffixOrigins := []\<rparr>"

section \<open>What trimSpace computes\<close>

text \<open>The two loops of \<^verbatim>\<open>trimSpace\<close> count the leading spaces and find the last byte
  that is not a space, but never go below index \<open>0\<close>.\<close>

lemma trimSpace_start_eq:
  "i \<le> length s \<Longrightarrow>
   trimSpace_start s i = i + length (takeWhile (\<lambda>c. c = CHR '' '') (drop i s))"
proof (induction s i rule: trimSpace_start.induct)
  case (1 s start)
  show ?case
  proof (cases "start < length s \<and> s ! start = CHR '' ''")
    case True
    then have "start < length s" by simp
    then have d: "drop start s = s ! start # drop (Suc start) s"
      by (simp add: Cons_nth_drop_Suc)
    from True 1 have "trimSpace_start s (start + 1) =
        start + 1 + length (takeWhile (\<lambda>c. c = CHR '' '') (drop (start + 1) s))"
      by simp
    with True d show ?thesis
      by (subst trimSpace_start.simps) simp
  next
    case False
    show ?thesis
    proof (cases "start < length s")
      case True
      with False have "s ! start \<noteq> CHR '' ''" by simp
      with True have "takeWhile (\<lambda>c. c = CHR '' '') (drop start s) = []"
        by (simp add: Cons_nth_drop_Suc[symmetric])
      with \<open>s ! start \<noteq> CHR '' ''\<close> show ?thesis by (subst trimSpace_start.simps) simp
    next
      case False
      then show ?thesis by (subst trimSpace_start.simps) simp
    qed
  qed
qed

lemma trimSpace_end_eq:
  "Suc n \<le> length s \<Longrightarrow>
   trimSpace_end s (int n) =
     int (max 1 (length (dropWhile (\<lambda>c. c = CHR '' '') (rev (take (Suc n) s))))) - 1"
proof (induction n)
  case 0
  then obtain x xs where "s = x # xs" by (cases s) auto
  then show ?case by (subst trimSpace_end.simps) simp
next
  case (Suc n)
  then have t: "take (Suc (Suc n)) s = take (Suc n) s @ [s ! Suc n]"
    by (simp add: take_Suc_conv_app_nth)
  have a: "int (Suc n) > 0" "nat (int (Suc n)) = Suc n" "int (Suc n) - 1 = int n"
    by simp_all
  have st: "trimSpace_end s (int (Suc n)) =
              (if s ! Suc n = CHR '' '' then trimSpace_end s (int n) else int (Suc n))"
    by (subst trimSpace_end.simps, unfold a, simp)
  show ?case
  proof (cases "s ! Suc n = CHR '' ''")
    case True
    from Suc have "trimSpace_end s (int n) =
      int (max 1 (length (dropWhile (\<lambda>c. c = CHR '' '') (rev (take (Suc n) s))))) - 1"
      by simp
    with True t show ?thesis unfolding st by simp
  next
    case False
    with t Suc.prems show ?thesis unfolding st by simp
  qed
qed

lemma rev_dropWhile_rev:
  "rev (dropWhile P (rev xs)) = take (length xs - length (takeWhile P (rev xs))) xs"
proof -
  have "xs = rev (dropWhile P (rev xs)) @ rev (takeWhile P (rev xs))"
    by (metis rev_append rev_rev_ident takeWhile_dropWhile_id)
  then show ?thesis
    by (metis append_eq_conv_conj diff_add_inverse2 length_append length_rev)
qed


lemma trimSpace_eq:
  "trimSpace s =
     (if 2 \<le> length s \<and> list_all (\<lambda>c. c = CHR '' '') s
      then Inl (SliceBoundsOutOfRange (length s) 1)
      else Inr (rev (dropWhile (\<lambda>c. c = CHR '' '') (rev (dropWhile (\<lambda>c. c = CHR '' '') s)))))"
proof (cases "s = []")
  case True
  have "trimSpace_start [] 0 = 0" by (subst trimSpace_start.simps) simp
  moreover have "trimSpace_end [] (- 1) = - 1" by (subst trimSpace_end.simps) simp
  ultimately show ?thesis using True by (simp add: trimSpace_def slice_def)
next
  case False
  let ?P = "\<lambda>c. c = CHR '' ''"
  from False obtain n where n: "length s = Suc n" by (cases s) auto
  have a: "trimSpace_start s 0 = length (takeWhile ?P s)"
    using trimSpace_start_eq[of 0 s] by simp
  have e: "trimSpace_end s (int (length s) - 1) =
             int (max 1 (length (dropWhile ?P (rev s)))) - 1"
    using trimSpace_end_eq[of n s] n by simp
  have t: "trimSpace s = slice s (length (takeWhile ?P s)) (max 1 (length (dropWhile ?P (rev s))))"
    unfolding trimSpace_def Let_def a e by simp
  show ?thesis
  proof (cases "list_all ?P s")
    case True
    then have tw: "takeWhile ?P s = s" and dw: "dropWhile ?P (rev s) = []"
      and dw2: "dropWhile ?P s = []"
      by (auto simp: list_all_iff)
    have "trimSpace s = slice s (length s) 1" unfolding t tw dw by simp
    then show ?thesis using n True by (simp add: slice_def dw2)
  next
    case nall: False
    then obtain x where x: "x \<in> set s" "\<not> ?P x" by (auto simp: list_all_iff)
    let ?d = "dropWhile ?P s"
    let ?a = "length (takeWhile ?P s)"
    let ?b = "length (takeWhile ?P (rev s))"
    have d: "?d = drop ?a s" by (rule dropWhile_eq_drop)
    have xd: "x \<in> set ?d"
    proof -
      have "set s = set (takeWhile ?P s) \<union> set ?d"
        by (metis set_append takeWhile_dropWhile_id)
      with x show ?thesis by (auto dest: set_takeWhileD)
    qed
    have rs: "rev s = rev ?d @ rev (takeWhile ?P s)"
      by (metis rev_append takeWhile_dropWhile_id)
    have tb: "takeWhile ?P (rev ?d) = takeWhile ?P (rev s)"
      unfolding rs using xd x(2) by (intro takeWhile_append1[symmetric, of x]) auto
    have ld: "length (dropWhile ?P (rev s)) = length s - ?b"
      using arg_cong[OF rev_dropWhile_rev[of ?P s], of length] by simp
    have lb: "?b \<le> length ?d"
      using length_takeWhile_le[of ?P "rev ?d"] unfolding tb by simp
    have ne: "length (takeWhile ?P (rev ?d)) < length ?d"
    proof -
      have "takeWhile ?P (rev ?d) \<noteq> rev ?d"
        using xd x(2) by (metis set_rev set_takeWhileD)
      then have "length (takeWhile ?P (rev ?d)) \<noteq> length (rev ?d)"
        by (metis takeWhile_eq_take take_all_iff order_refl)
      with length_takeWhile_le[of ?P "rev ?d"] show ?thesis by simp
    qed
    have ld2: "length ?d = length s - ?a"
      using arg_cong[OF d, of length] by simp
    from ne have "?b < length ?d" unfolding tb .
    with ld2 have pos: "?a + ?b < length s" by simp
    have "rev (dropWhile ?P (rev ?d)) = take (length ?d - ?b) ?d"
      unfolding rev_dropWhile_rev tb ..
    also have "\<dots> = take (length s - ?b - ?a) (drop ?a s)"
      unfolding ld2 using d by (simp add: add.commute)
    finally have r: "rev (dropWhile ?P (rev ?d)) = take (length s - ?b - ?a) (drop ?a s)" .
    from pos nall show ?thesis unfolding t slice_def ld r by simp
  qed
qed

section \<open>The patterns initialize compiles\<close>

text \<open>\<^verbatim>\<open>QuoteMeta\<close> escapes every \<open>*\<close> and \<open>?\<close>, so the two replacements turn exactly
  the characters \<open>*\<close> and \<open>?\<close> of an entry into \<^verbatim>\<open>.*\<close> and \<^verbatim>\<open>.\<close>, and the pattern of
  an ASCII entry always compiles: on ASCII origins \<^verbatim>\<open>regexp.MustCompile\<close> does not
  panic in \<^verbatim>\<open>initialize\<close>. (On bytes above \<open>0x7F\<close> Go refuses a pattern that is
  not valid UTF-8; the model does not.)\<close>

lemma Replace_Nil: "Replace [] old new = []"
  by (subst Replace.simps) simp

lemma Replace_Cons2:
  "Replace (c # s) [a, b] new =
     (if c = a \<and> s \<noteq> [] \<and> hd s = b then new @ Replace (tl s) [a, b] new
      else c # Replace s [a, b] new)"
  by (subst Replace.simps) (cases s; auto)

lemma special_simps:
  "c \<in> set specialBytes \<longleftrightarrow>
     c = backslash \<or> c = CHR ''.'' \<or> c = CHR ''+'' \<or> c = CHR ''*'' \<or> c = CHR ''?'' \<or>
     c = CHR ''('' \<or> c = CHR '')'' \<or> c = CHR ''|'' \<or> c = CHR ''['' \<or> c = CHR '']'' \<or>
     c = CHR ''{'' \<or> c = CHR ''}'' \<or> c = CHR ''^'' \<or> c = CHR ''$''"
  by (auto simp: specialBytes_def)

lemma QuoteMeta_hd: "QuoteMeta t = [] \<or> (hd (QuoteMeta t) \<noteq> CHR ''*'' \<and> hd (QuoteMeta t) \<noteq> CHR ''?'')"
  by (cases t) (auto simp: special_simps backslash_def)

lemma Replace_star: "Replace (QuoteMeta t) [backslash, CHR ''*''] ''.*'' = star1 t"
proof (induction t)
  case Nil
  show ?case by (simp add: Replace_Nil)
next
  case (Cons c t)
  from QuoteMeta_hd[of t] Cons show ?case
    by (auto simp: Replace_Cons2 special_simps backslash_def)
qed

lemma star1_hd: "star1 t = [] \<or> hd (star1 t) \<noteq> CHR ''?''"
  by (cases t) (auto simp: special_simps backslash_def)

lemma Replace_question: "Replace (star1 t) [backslash, CHR ''?''] ''.'' = star2 t"
proof (induction t)
  case Nil
  show ?case by (simp add: Replace_Nil)
next
  case (Cons c t)
  from star1_hd[of t] Cons show ?case
    by (auto simp: Replace_Cons2 special_simps backslash_def)
qed

lemma star2_hd: "star2 t = [] \<or> hd (star2 t) \<noteq> CHR ''*''"
  by (cases t) (auto simp: special_simps backslash_def)

lemma MustCompile_escaped:
  "d \<in> set specialBytes \<Longrightarrow>
   MustCompile (backslash # d # s) = map_option ((#) (Lit d)) (MustCompile s)"
  by simp

lemma MustCompile_dot_star:
  "MustCompile (CHR ''.'' # CHR ''*'' # s) = map_option ((#) AnySeq) (MustCompile s)"
  by (simp add: backslash_def)

lemma MustCompile_dot:
  "s = [] \<or> hd s \<noteq> CHR ''*'' \<Longrightarrow>
   MustCompile (CHR ''.'' # s) = map_option ((#) AnyChar) (MustCompile s)"
  by (cases s) (auto simp: backslash_def)

lemma MustCompile_plain:
  "c \<notin> set specialBytes \<Longrightarrow>
   MustCompile (c # s) = map_option ((#) (Lit c)) (MustCompile s)"
  by (cases s) (auto simp: special_simps)

lemma MustCompile_star2:
  "MustCompile (star2 t) =
     Some (map (\<lambda>c. if c = CHR ''*'' then AnySeq else if c = CHR ''?'' then AnyChar else Lit c) t)"
proof (induction t)
  case Nil
  show ?case by simp
next
  case (Cons c t)
  show ?case
  proof (cases "c = CHR ''*''")
    case True
    with Cons show ?thesis by (simp add: MustCompile_dot_star del: MustCompile.simps)
  next
    case ns: False
    show ?thesis
    proof (cases "c = CHR ''?''")
      case True
      with Cons MustCompile_dot[OF star2_hd[of t]] show ?thesis
        by (simp del: MustCompile.simps)
    next
      case nq: False
      show ?thesis
      proof (cases "c \<in> set specialBytes")
        case True
        with ns nq Cons MustCompile_escaped[OF True, of "star2 t"] show ?thesis
          by (simp del: MustCompile.simps)
      next
        case False
        with ns nq Cons MustCompile_plain[OF False, of "star2 t"] show ?thesis
          by (simp del: MustCompile.simps)
      qed
    qed
  qed
qed

lemma pattern_compiles:
  assumes "isASCII t"
  shows "MustCompile (Replace (Replace (QuoteMeta t) [backslash, CHR ''*''] ''.*'')
                  [backslash, CHR ''?''] ''.'') =
     Some (map (\<lambda>c. if c = CHR ''*'' then AnySeq else if c = CHR ''?'' then AnyChar else Lit c) t)"
  by (simp only: Replace_star Replace_question MustCompile_star2)

lemma initOrigin_no_panic:
  assumes "isASCII orig"
  shows "\<exists>c1. initOrigin c orig = Inr c1"
  unfolding initOrigin_def Let_def Replace_star Replace_question MustCompile_star2 by simp

section \<open>Facts about the compiled filter\<close>

text \<open>The two maps are read as sets; the loop over the origins changes the three
  buckets only; and each scalar of the compiled filter is a function of the
  configuration whenever \<^verbatim>\<open>initialize\<close> returns.\<close>

lemma index_allowed_loop:
  "index (allowed_loop m as) k = (k \<in> set as \<or> index m k)"
  by (induction as arbitrary: m) (auto simp: index_def)

lemma index_allowed: "index (allowed as) k = (k \<in> set as)"
  by (simp add: allowed_def index_allowed_loop) (simp add: index_def)

lemma initOrigin_frame:
  "initOrigin c orig = Inr c1 \<Longrightarrow> noBuckets c1 = noBuckets c"
  unfolding initOrigin_def Let_def noBuckets_def
  by (auto split: if_splits option.splits)

lemma initOrigins_loop_frame:
  "initOrigins_loop c origins = Inr c1 \<Longrightarrow> noBuckets c1 = noBuckets c"
proof (induction origins arbitrary: c)
  case Nil
  then show ?case by simp
next
  case (Cons orig origins)
  then obtain c2 where s: "initOrigin c orig = Inr c2"
    and l: "initOrigins_loop c2 origins = Inr c1"
    by (auto split: sum.splits)
  from Cons.IH[OF l] initOrigin_frame[OF s] show ?case by simp
qed

lemma TrimSpace_star: "TrimSpace ''*'' = ''*''"
  by (simp add: TrimSpace_def isSpace_def)

lemma noBuckets_eq_iff:
  "noBuckets a = noBuckets b \<longleftrightarrow>
     allowedMethods a = allowedMethods b \<and> allowedHeaders a = allowedHeaders b \<and>
     allowedHeadersString a = allowedHeadersString b \<and>
     allowedMethodsString a = allowedMethodsString b \<and> hostName a = hostName b \<and>
     maxAge a = maxAge b \<and> exposedHeaders a = exposedHeaders b \<and>
     exposeHeader a = exposeHeader b \<and> allowAllOrigins a = allowAllOrigins b \<and>
     allowAllHeaders a = allowAllHeaders b \<and> allowCredentials a = allowCredentials b \<and>
     forwardRequest a = forwardRequest b"
  by (cases a, cases b) (auto simp: noBuckets_def)

lemma initOrigins_frame:
  assumes "initOrigins config c = Inr c1"
  shows "noBuckets c1 = noBuckets (c\<lparr>allowAllOrigins :=
           allowAllOrigins c \<and> (AllowedOrigins config = [] \<or> AllowedOrigins config = ''*'')\<rparr>)"
proof (cases "length (AllowedOrigins config) > 0 \<and> AllowedOrigins config \<noteq> ''*''")
  case True
  with assms obtain c2 where
    l: "initOrigins_loop c (Split (AllowedOrigins config) (CHR '','')) = Inr c2"
    and c1: "c1 = c2\<lparr>allowAllOrigins := False\<rparr>"
    unfolding initOrigins_def by (auto split: sum.splits)
  from initOrigins_loop_frame[OF l] c1 True show ?thesis
    by (simp add: noBuckets_eq_iff)
next
  case False
  with assms have "c1 = c" unfolding initOrigins_def by auto
  with False show ?thesis by (auto simp: noBuckets_eq_iff)
qed

lemma normalizeHeaders_default:
  "normalizeHeaders DefaultAllowedHeaders =
     Inr [''origin'', ''accept'', ''content-type'', ''accept-language'',
          ''content-language'', ''last-event-id'']"
  by code_simp

lemma initialize_cases:
  assumes "initialize config = Inr c"
  obtains c0 c1 c2 where "initDefault = Inr c0"
    and "initOrigins config (c0\<lparr>forwardRequest := ForwardRequest config\<rparr>) = Inr c1"
    and "initHeaders config (initMethods config c1) = Inr c2"
    and "c = initCredentials config (initExposedHeaders config (initMaxAge config c2))"
proof (cases initDefault)
  case (Inl p)
  from assms show ?thesis unfolding initialize_def Inl by simp
next
  case c0: (Inr c0)
  show ?thesis
  proof (cases "initOrigins config (c0\<lparr>forwardRequest := ForwardRequest config\<rparr>)")
    case (Inl p)
    from assms show ?thesis unfolding initialize_def c0 sum.case Inl by simp
  next
    case c1: (Inr c1)
    show ?thesis
    proof (cases "initHeaders config (initMethods config c1)")
      case (Inl p)
      from assms show ?thesis unfolding initialize_def c0 sum.case c1 Inl by simp
    next
      case c2: (Inr c2)
      from assms have "c = initCredentials config (initExposedHeaders config (initMaxAge config c2))"
        unfolding initialize_def c0 sum.case c1 c2 by simp
      with c0 c1 c2 that show ?thesis by blast
    qed
  qed
qed

lemma initMethods_fields:
  "allowedMethods (initMethods config c) =
     (if AllowedMethods config = [] then allowedMethods c
      else allowed (Split (ToUpper (AllowedMethods config)) (CHR '','')))"
  "allowedMethodsString (initMethods config c) =
     (if AllowedMethods config = [] then allowedMethodsString c else AllowedMethods config)"
  "allowAllOrigins (initMethods config c) = allowAllOrigins c"
  "allowAllHeaders (initMethods config c) = allowAllHeaders c"
  "allowCredentials (initMethods config c) = allowCredentials c"
  "maxAge (initMethods config c) = maxAge c"
  "forwardRequest (initMethods config c) = forwardRequest c"
  "exposeHeader (initMethods config c) = exposeHeader c"
  "exposedHeaders (initMethods config c) = exposedHeaders c"
  "allowedHeadersString (initMethods config c) = allowedHeadersString c"
  "allowedHeaders (initMethods config c) = allowedHeaders c"
  "allowedStaticOrigins (initMethods config c) = allowedStaticOrigins c"
  "allowedSuffixOrigins (initMethods config c) = allowedSuffixOrigins c"
  "allowedRegexOrigins (initMethods config c) = allowedRegexOrigins c"
  by (simp_all add: initMethods_def)

lemma initTail_fields:
  fixes config c2
  defines "c \<equiv> initCredentials config (initExposedHeaders config (initMaxAge config c2))"
  shows "allowAllOrigins c = allowAllOrigins c2"
    and "allowCredentials c =
           (if AllowCredentials config \<and> allowAllOrigins c2 then allowCredentials c2
            else AllowCredentials config)"
    and "maxAge c = (if MaxAge config > 0 then Itoa (MaxAge config) else maxAge c2)"
    and "exposeHeader c = (ExposedHeaders config \<noteq> [] \<or> exposeHeader c2)"
    and "exposedHeaders c =
           (if ExposedHeaders config = [] then exposedHeaders c2 else ExposedHeaders config)"
    and "allowAllHeaders c = allowAllHeaders c2"
    and "forwardRequest c = forwardRequest c2"
    and "allowedMethods c = allowedMethods c2"
    and "allowedMethodsString c = allowedMethodsString c2"
    and "allowedHeaders c = allowedHeaders c2"
    and "allowedHeadersString c = allowedHeadersString c2"
    and "allowedStaticOrigins c = allowedStaticOrigins c2"
    and "allowedSuffixOrigins c = allowedSuffixOrigins c2"
    and "allowedRegexOrigins c = allowedRegexOrigins c2"
  unfolding c_def by (auto simp: initCredentials_def initExposedHeaders_def initMaxAge_def)

lemma initHeaders_frame:
  assumes "initHeaders config c = Inr c1"
  shows "allowAllHeaders c1 = (allowAllHeaders c \<or> AllowedHeaders config = ''*'')"
    and "allowedHeadersString c1 =
           (if AllowedHeaders config = [] then allowedHeadersString c else AllowedHeaders config)"
    and "allowAllOrigins c1 = allowAllOrigins c"
    and "allowCredentials c1 = allowCredentials c"
    and "maxAge c1 = maxAge c"
    and "forwardRequest c1 = forwardRequest c"
    and "exposeHeader c1 = exposeHeader c"
    and "exposedHeaders c1 = exposedHeaders c"
    and "allowedMethods c1 = allowedMethods c"
    and "allowedMethodsString c1 = allowedMethodsString c"
    and "allowedStaticOrigins c1 = allowedStaticOrigins c"
    and "allowedSuffixOrigins c1 = allowedSuffixOrigins c"
    and "allowedRegexOrigins c1 = allowedRegexOrigins c"
  using assms unfolding initHeaders_def
  by (auto simp: TrimSpace_star split: if_splits sum.splits)

lemma initialize_scalars:
  assumes "initialize config = Inr c"
  shows "allowAllOrigins c = (AllowedOrigins config = [] \<or> AllowedOrigins config = ''*'')"
    and "allowCredentials c = (AllowCredentials config \<and> \<not> allowAllOrigins c)"
    and "maxAge c = (if MaxAge config > 0 then Itoa (MaxAge config) else ''1800'')"
    and "allowAllHeaders c = (AllowedHeaders config = ''*'')"
    and "forwardRequest c = ForwardRequest config"
    and "exposeHeader c = (ExposedHeaders config \<noteq> [])"
    and "exposedHeaders c = ExposedHeaders config"
    and "allowedMethods c = allowed (Split (if AllowedMethods config = [] then DefaultAllowedMethods else ToUpper (AllowedMethods config)) (CHR '',''))"
    and "allowedMethodsString c = (if AllowedMethods config = [] then DefaultAllowedMethods else AllowedMethods config)"
    and "allowedHeadersString c = (if AllowedHeaders config = [] then DefaultAllowedHeaders else AllowedHeaders config)"
proof -
  from assms obtain c0 c1 c2 where d: "initDefault = Inr c0"
    and o: "initOrigins config (c0\<lparr>forwardRequest := ForwardRequest config\<rparr>) = Inr c1"
    and h: "initHeaders config (initMethods config c1) = Inr c2"
    and c: "c = initCredentials config (initExposedHeaders config (initMaxAge config c2))"
    by (rule initialize_cases)
  from d have c0: "allowAllOrigins c0" "\<not> allowCredentials c0" "maxAge c0 = ''1800''"
    "\<not> allowAllHeaders c0" "\<not> exposeHeader c0" "exposedHeaders c0 = []"
    "allowedMethods c0 = allowed (Split DefaultAllowedMethods (CHR '',''))"
    "allowedMethodsString c0 = DefaultAllowedMethods"
    "allowedHeadersString c0 = DefaultAllowedHeaders"
    unfolding initDefault_def normalizeHeaders_default by auto
  note f = initOrigins_frame[OF o, unfolded noBuckets_eq_iff, simplified]
  note g = initHeaders_frame[OF h, unfolded initMethods_fields]
  note t = initTail_fields[of config c2, folded c]
  show "allowAllOrigins c = (AllowedOrigins config = [] \<or> AllowedOrigins config = ''*'')"
    using c0 f by (auto simp: t g)
  show "allowCredentials c = (AllowCredentials config \<and> \<not> allowAllOrigins c)"
    using c0 f by (auto simp: t g)
  show "maxAge c = (if MaxAge config > 0 then Itoa (MaxAge config) else ''1800'')"
    using c0 f by (auto simp: t g)
  show "allowAllHeaders c = (AllowedHeaders config = ''*'')"
    using c0 f by (auto simp: t g)
  show "forwardRequest c = ForwardRequest config"
    using c0 f by (auto simp: t g)
  show "exposeHeader c = (ExposedHeaders config \<noteq> [])"
    using c0 f by (auto simp: t g)
  show "exposedHeaders c = ExposedHeaders config"
    using c0 f by (auto simp: t g)
  show "allowedMethods c = allowed (Split (if AllowedMethods config = [] then DefaultAllowedMethods else ToUpper (AllowedMethods config)) (CHR '',''))"
    using c0 f by (auto simp: t g)
  show "allowedMethodsString c = (if AllowedMethods config = [] then DefaultAllowedMethods else AllowedMethods config)"
    using c0 f by (auto simp: t g)
  show "allowedHeadersString c = (if AllowedHeaders config = [] then DefaultAllowedHeaders else AllowedHeaders config)"
    using c0 f by (auto simp: t g)
qed

lemma initialize_allowedHeaders:
  assumes "initialize config = Inr c"
    and "AllowedHeaders config \<noteq> []" and "AllowedHeaders config \<noteq> ''*''"
  shows "\<exists>hs. normalizeHeaders (AllowedHeaders config) = Inr hs \<and> allowedHeaders c = allowed hs"
proof -
  from assms(1) obtain c0 c1 c2 where
    h: "initHeaders config (initMethods config c1) = Inr c2"
    and c: "c = initCredentials config (initExposedHeaders config (initMaxAge config c2))"
    by (rule initialize_cases)
  from h assms(2,3) obtain hs where "normalizeHeaders (AllowedHeaders config) = Inr hs"
    and "allowedHeaders c2 = allowed hs"
    unfolding initHeaders_def by (auto simp: TrimSpace_star split: sum.splits)
  with initTail_fields(10)[of config c2] c show ?thesis by simp
qed

section \<open>Facts about the request handler\<close>

text \<open>When the handler adds the credentials field, what a preflight request is
  answered, and the value of \<^verbatim>\<open>Access-Control-Allow-Headers\<close>.\<close>

lemmas headerNames =
  AccessControlAllowOrigin_def AccessControlExposeHeaders_def AccessControlControlMaxAge_def
  AccessControlAllowMethods_def AccessControlAllowHeaders_def AccessControlAllowCredentials_def
  AccessControlRequestMethod_def AccessControlRequestHeaders_def OriginHeader_def VaryHeader_def

lemmas statusCodes = StatusOK_def StatusForbidden_def StatusMethodNotAllowed_def

lemma filter_cors_credentials:
  assumes "filter_cors c r = Inr w"
    and "AccessControlAllowCredentials \<in> set (map fst (Added w))"
  shows "allowCredentials c"
  using assms unfolding filter_cors_def preflight_def Let_def
  by (auto simp: headerNames split: if_splits sum.splits)

lemma filter_cors_preflight_status:
  assumes "Method r = MethodOptions"
    and "Get (Header r) OriginHeader \<noteq> []"
    and "isOriginAllowed c (Get (Header r) OriginHeader)"
  shows "(isMethodAllowed c MethodOptions \<longrightarrow>
            (status (filter_cors c r) = Some (WriteHeader StatusMethodNotAllowed)) =
            (\<not> isMethodAllowed c (Get (Header r) AccessControlRequestMethod))) \<and>
         (\<not> isMethodAllowed c MethodOptions \<longrightarrow>
            filter_cors c r =
              Inr \<lparr>Added = [(VaryHeader, OriginHeader)],
                   Outcome = WriteHeader StatusMethodNotAllowed\<rparr>)"
  using assms unfolding filter_cors_def preflight_def Let_def status_def
  by (auto simp: statusCodes split: if_splits sum.splits)

lemma filter_cors_allow_headers:
  assumes "filter_cors c r = Inr w"
    and "AccessControlAllowHeaders \<in> set (map fst (Added w))"
  shows "valuesOf AccessControlAllowHeaders (Inr w) =
           [if allowAllHeaders c then Get (Header r) AccessControlRequestHeaders
            else allowedHeadersString c]"
  using assms unfolding filter_cors_def preflight_def Let_def valuesOf_def
  by (auto simp: headerNames split: if_splits sum.splits)

lemma filter_cors_preflight_success:
  assumes "filter_cors c r = Inr w"
    and "Outcome w = WriteHeader StatusOK \<or>
         Outcome w = ServeNext \<and> Method r = MethodOptions \<and>
         Get (Header r) OriginHeader \<noteq> []"
  shows "AccessControlAllowHeaders \<in> set (map fst (Added w))"
  using assms unfolding filter_cors_def preflight_def Let_def
  by (auto simp: statusCodes split: if_splits sum.splits)

section \<open>The compiled max-age and the suffix bucket\<close>

text \<open>\<^verbatim>\<open>strconv.Itoa\<close> of a positive number is never \<^verbatim>\<open>"0"\<close>, so the compiled max-age
  never is; an entry \<^verbatim>\<open>*.d\<close> puts \<open>d\<close>, without the dot, into the suffix bucket.\<close>

lemma digits_nonempty: "digits n \<noteq> []"
  by (subst digits.simps) simp

lemma digits_not_zero: "0 < n \<Longrightarrow> digits n \<noteq> ''0''"
proof (cases "n < 10")
  case True
  assume "0 < n"
  have "(of_char (char_of (48 + n)) :: nat) = (48 + n) mod 256" by (rule of_char_of)
  also from True have "\<dots> = 48 + n" by simp
  finally have "(of_char (char_of (48 + n)) :: nat) \<noteq> of_char (CHR ''0'')"
    using \<open>0 < n\<close> by simp
  then have "char_of (48 + n) \<noteq> CHR ''0''" by metis
  with True show ?thesis by (subst digits.simps) simp
next
  case False
  then have "length (digits n) \<ge> 2"
    using digits_nonempty[of "n div 10"]
    by (subst digits.simps) (cases "digits (n div 10)"; simp)
  then show ?thesis by auto
qed

lemma maxAge_never_zero:
  assumes "initialize config = Inr c"
  shows "maxAge c \<noteq> ''0''"
  using initialize_scalars(3)[OF assms] digits_not_zero[of "nat (MaxAge config)"]
  by (auto simp: Itoa_def)

lemma maxAge_default:
  assumes "initialize config = Inr c" and "MaxAge config \<le> 0"
  shows "maxAge c = ''1800''"
  using initialize_scalars(3)[OF assms(1)] assms(2) by simp

lemma initOrigin_suffix:
  "initOrigin c (''*.'' @ d) =
     Inr (c\<lparr>allowedSuffixOrigins := allowedSuffixOrigins c @ [d]\<rparr>)"
  by (simp add: initOrigin_def)

lemma HasSuffix_append: "HasSuffix (a @ d) d"
  by (simp add: HasSuffix_def)

section \<open>trimSpace and normalizeHeaders on blank tokens\<close>

text \<open>
  C6. The claim: \<^verbatim>\<open>trimSpace\<close> removes the leading and trailing spaces of every byte
  sequence and never fails, also on a sequence of spaces only. On the two bytes
  \<^verbatim>\<open>"  "\<close> the first loop leaves \<open>start = 2\<close>, the second loop stops at \<open>end = 0\<close>
  because of its guard \<^verbatim>\<open>end > 0\<close>, and the slice expression \<^verbatim>\<open>s[2:1]\<close> panics.
  \<^verbatim>\<open>TestTrim\<close> expects the empty result on seven spaces.
\<close>

theorem trimSpace_two_spaces_panics:
  "trimSpace ''  '' = Inl (SliceBoundsOutOfRange 2 1)"
  by code_simp

text \<open>
  C7. The claim: normalizing, joining with commas and normalizing again gives the
  first result. On \<^verbatim>\<open>"a, ,b"\<close> the blank token is kept as an empty token by the first
  pass and dropped by the second, where it has become an empty run between two
  separators.
\<close>

theorem normalizeHeaders_not_idempotent:
  "normalizeHeaders ''a, ,b'' = Inr [''a'', [], ''b''] \<and>
   Join [''a'', [], ''b''] = ''a,,b'' \<and>
   normalizeHeaders ''a,,b'' = Inr [''a'', ''b'']"
  by code_simp

section \<open>Allow-credentials and allow-all-origins\<close>

text \<open>
  C2. For every configuration with \<^verbatim>\<open>AllowCredentials\<close> set and origins that resolve to
  allow-all (the empty string or \<^verbatim>\<open>*\<close>), the compiled filter has
  \<^verbatim>\<open>allowCredentials\<close> false, and the handler adds no
  \<^verbatim>\<open>Access-Control-Allow-Credentials\<close> field, whatever the request.
\<close>

theorem credentials_off_when_all_origins:
  assumes "AllowCredentials config"
    and "AllowedOrigins config = [] \<or> AllowedOrigins config = ''*''"
  shows "(\<forall>c. initialize config = Inr c \<longrightarrow> \<not> allowCredentials c) \<and>
         AccessControlAllowCredentials \<notin> set (fields (Filter config r))"
proof -
  have a: "\<not> allowCredentials c" if "initialize config = Inr c" for c
    using initialize_scalars(1,2)[OF that] assms(2) by simp
  have "AccessControlAllowCredentials \<notin> set (fields (Filter config r))"
  proof (cases "initialize config")
    case (Inl p)
    then show ?thesis by (simp add: Filter_def fields_def)
  next
    case (Inr c)
    show ?thesis
    proof (cases "filter_cors c r")
      case (Inl p)
      with Inr show ?thesis by (simp add: Filter_def fields_def)
    next
      case w: (Inr w)
      from filter_cors_credentials[OF w] a[OF Inr]
      have "AccessControlAllowCredentials \<notin> set (map fst (Added w))" by blast
      with Inr w show ?thesis by (simp add: Filter_def fields_def)
    qed
  qed
  with a show ?thesis by blast
qed

text \<open>The configuration of \<^verbatim>\<open>TestHandleActualRequestIgnoreAllowsCredentials\<close>, on a
  preflight request.\<close>

theorem credentials_off_when_all_origins_witness:
  "AllowCredentials (zeroConfig\<lparr>AllowedOrigins := ''*'', AllowCredentials := True\<rparr>) \<and>
   AllowedOrigins (zeroConfig\<lparr>AllowedOrigins := ''*'', AllowCredentials := True\<rparr>) = ''*'' \<and>
   (\<exists>c. initialize (zeroConfig\<lparr>AllowedOrigins := ''*'', AllowCredentials := True\<rparr>) = Inr c \<and>
        \<not> allowCredentials c) \<and>
   fields (Filter (zeroConfig\<lparr>AllowedOrigins := ''*'', AllowCredentials := True\<rparr>)
            \<lparr>Method = ''OPTIONS'',
             Header = [(''Origin'', ''http://example.com''),
                       (''Access-Control-Request-Method'', ''GET'')]\<rparr>) =
     [''Vary'', ''Access-Control-Allow-Origin'', ''Vary'', ''Access-Control-Allow-Methods'',
      ''Access-Control-Allow-Headers'', ''Access-Control-Max-Age''] \<and>
   AccessControlAllowCredentials \<notin>
     set (fields (Filter (zeroConfig\<lparr>AllowedOrigins := ''*'', AllowCredentials := True\<rparr>)
            \<lparr>Method = ''OPTIONS'',
             Header = [(''Origin'', ''http://example.com''),
                       (''Access-Control-Request-Method'', ''GET'')]\<rparr>))"
  (is "?A \<and> ?B \<and> (\<exists>c. ?I c \<and> ?C c) \<and> ?F \<and> ?N")
proof -
  have "case initialize (zeroConfig\<lparr>AllowedOrigins := ''*'', AllowCredentials := True\<rparr>) of
          Inl p \<Rightarrow> False | Inr c \<Rightarrow> True"
    by code_simp
  then obtain c where c: "?I c" by (auto split: sum.splits)
  have f: ?F by code_simp
  have h: ?A ?B by (simp_all add: zeroConfig_def)
  from credentials_off_when_all_origins[OF h(1) disjI2[OF h(2)]] h c f
  show ?thesis by blast
qed

section \<open>The method checks of a preflight request\<close>

text \<open>
  C3, as claimed: on a preflight request with an allowed origin the method check is
  made on the value of \<^verbatim>\<open>Access-Control-Request-Method\<close> and not on \<^verbatim>\<open>OPTIONS\<close>, so
  a preflight that asks for an allowed method is not rejected because \<^verbatim>\<open>OPTIONS\<close> is
  missing from the allowed methods. With \<^verbatim>\<open>AllowedMethods: "PUT"\<close> an actual
  \<^verbatim>\<open>PUT\<close> request is served, and the preflight that asks for \<^verbatim>\<open>PUT\<close> is answered 405
  by the first method check, before the request header is read.
\<close>

theorem preflight_needs_OPTIONS_counterexample:
  "Filter (zeroConfig\<lparr>AllowedOrigins := ''http://foobar.com'', AllowedMethods := ''PUT''\<rparr>)
     \<lparr>Method = ''PUT'', Header = [(''Origin'', ''http://foobar.com'')]\<rparr> =
     Inr \<lparr>Added = [(''Vary'', ''Origin''),
                   (''Access-Control-Allow-Origin'', ''http://foobar.com'')],
          Outcome = ServeNext\<rparr> \<and>
   Filter (zeroConfig\<lparr>AllowedOrigins := ''http://foobar.com'', AllowedMethods := ''PUT''\<rparr>)
     \<lparr>Method = ''OPTIONS'',
      Header = [(''Origin'', ''http://foobar.com''),
                (''Access-Control-Request-Method'', ''PUT'')]\<rparr> =
     Inr \<lparr>Added = [(''Vary'', ''Origin'')], Outcome = WriteHeader 405\<rparr>"
  by code_simp

text \<open>
  C3, amended: the handler checks the method of every request with an allowed origin
  against the allowed methods first, so \<^verbatim>\<open>OPTIONS\<close> has to be one of them for a
  preflight to be handled (the warning of the README). If it is, the preflight is
  answered 405 exactly when the value of \<^verbatim>\<open>Access-Control-Request-Method\<close> is not an
  allowed method; if it is not, every preflight is answered 405 with only
  \<^verbatim>\<open>Vary: Origin\<close> added.
\<close>

theorem preflight_method_check:
  assumes "initialize config = Inr c"
    and "Method r = MethodOptions"
    and "Get (Header r) OriginHeader \<noteq> []"
    and "isOriginAllowed c (Get (Header r) OriginHeader)"
  shows "(isMethodAllowed c MethodOptions \<longrightarrow>
            (status (Filter config r) = Some (WriteHeader StatusMethodNotAllowed)) =
            (\<not> isMethodAllowed c (Get (Header r) AccessControlRequestMethod))) \<and>
         (\<not> isMethodAllowed c MethodOptions \<longrightarrow>
            Filter config r =
              Inr \<lparr>Added = [(VaryHeader, OriginHeader)],
                   Outcome = WriteHeader StatusMethodNotAllowed\<rparr>)"
  using filter_cors_preflight_status[OF assms(2,3,4)] assms(1)
  by (simp add: Filter_def)

text \<open>The configuration of \<^verbatim>\<open>TestAllowedMethod\<close>: \<^verbatim>\<open>OPTIONS\<close> and \<^verbatim>\<open>PUT\<close> are
  allowed, and the preflight that asks for \<^verbatim>\<open>PUT\<close> is not answered 405.\<close>

theorem preflight_method_check_witness:
  "\<exists>c. initialize (zeroConfig\<lparr>AllowedOrigins := ''http://foobar.com'',
                               AllowedMethods := ''PUT,DELETE,OPTIONS''\<rparr>) = Inr c \<and>
       isOriginAllowed c ''http://foobar.com'' \<and>
       isMethodAllowed c MethodOptions \<and>
       isMethodAllowed c ''PUT'' \<and>
       status (Filter (zeroConfig\<lparr>AllowedOrigins := ''http://foobar.com'',
                                  AllowedMethods := ''PUT,DELETE,OPTIONS''\<rparr>)
                \<lparr>Method = ''OPTIONS'',
                 Header = [(''Origin'', ''http://foobar.com''),
                           (''Access-Control-Request-Method'', ''PUT'')]\<rparr>) \<noteq>
         Some (WriteHeader StatusMethodNotAllowed)"
proof -
  let ?cfg = "zeroConfig\<lparr>AllowedOrigins := ''http://foobar.com'',
                         AllowedMethods := ''PUT,DELETE,OPTIONS''\<rparr>"
  let ?r = "\<lparr>Method = ''OPTIONS'',
             Header = [(''Origin'', ''http://foobar.com''),
                       (''Access-Control-Request-Method'', ''PUT'')]\<rparr>"
  have "case initialize ?cfg of
          Inl p \<Rightarrow> False
        | Inr c \<Rightarrow> isOriginAllowed c ''http://foobar.com'' \<and> isMethodAllowed c MethodOptions \<and>
                  isMethodAllowed c ''PUT''"
    by code_simp
  then obtain c where c: "initialize ?cfg = Inr c" "isOriginAllowed c ''http://foobar.com''"
    "isMethodAllowed c MethodOptions" "isMethodAllowed c ''PUT''"
    by (auto split: sum.splits)
  have m: "Method ?r = MethodOptions" by (simp add: MethodOptions_def)
  have g: "Get (Header ?r) OriginHeader = ''http://foobar.com''"
    "Get (Header ?r) AccessControlRequestMethod = ''PUT''"
    by (simp_all add: Get_def OriginHeader_def AccessControlRequestMethod_def)
  have o: "Get (Header ?r) OriginHeader \<noteq> []" using g by simp
  have a: "isOriginAllowed c (Get (Header ?r) OriginHeader)" using g c by simp
  from preflight_method_check[OF c(1) m o a] c g show ?thesis by auto
qed

section \<open>Letter case of the request method\<close>

text \<open>
  C4, as claimed: the handler upper-cases the incoming method, and the value of
  \<^verbatim>\<open>Access-Control-Request-Method\<close> of a preflight, before it looks it up, so a method
  that differs from an allowed one only in letter case is not rejected. Under the
  default methods a \<^verbatim>\<open>GET\<close> request is served and a \<^verbatim>\<open>get\<close> request, whose
  upper-case form is \<^verbatim>\<open>GET\<close>, is answered 405; a preflight that asks for \<^verbatim>\<open>GET\<close> is
  answered 200 and a preflight that asks for \<^verbatim>\<open>get\<close> is answered 405.
\<close>

theorem lower_case_method_counterexample:
  "Filter zeroConfig \<lparr>Method = ''GET'', Header = [(''Origin'', ''http://example.com'')]\<rparr> =
     Inr \<lparr>Added = [(''Vary'', ''Origin''),
                   (''Access-Control-Allow-Origin'', ''http://example.com'')],
          Outcome = ServeNext\<rparr> \<and>
   ToUpper ''get'' = ''GET'' \<and>
   Filter zeroConfig \<lparr>Method = ''get'', Header = [(''Origin'', ''http://example.com'')]\<rparr> =
     Inr \<lparr>Added = [(''Vary'', ''Origin'')], Outcome = WriteHeader 405\<rparr> \<and>
   status (Filter zeroConfig
             \<lparr>Method = ''OPTIONS'',
              Header = [(''Origin'', ''http://example.com''),
                        (''Access-Control-Request-Method'', ''GET'')]\<rparr>) =
     Some (WriteHeader 200) \<and>
   Filter zeroConfig
     \<lparr>Method = ''OPTIONS'',
      Header = [(''Origin'', ''http://example.com''),
                (''Access-Control-Request-Method'', ''get'')]\<rparr> =
     Inr \<lparr>Added = [(''Vary'', ''Origin''),
                   (''Access-Control-Allow-Origin'', ''http://example.com''),
                   (''Vary'', ''Access-Control-Request-Method, Access-Control-Request-Headers'')],
          Outcome = WriteHeader 405\<rparr>"
  by code_simp

text \<open>
  C4, amended: only the configured list is upper-cased. The allowed methods are the
  comma-separated entries of the upper-cased \<^verbatim>\<open>AllowedMethods\<close> (of the default list
  when it is empty). The handler looks two strings up in them exactly as they were
  received, without changing their case: the method of the request and, on a
  preflight, the value of \<^verbatim>\<open>Access-Control-Request-Method\<close>. A request with an
  allowed origin is answered 405 by the handler exactly when its method is not
  literally an allowed method, or it is \<^verbatim>\<open>OPTIONS\<close> and the value of
  \<^verbatim>\<open>Access-Control-Request-Method\<close> is not literally an allowed method. In the first
  case only \<^verbatim>\<open>Vary: Origin\<close> has been added; in the second case
  \<^verbatim>\<open>Access-Control-Allow-Origin\<close> and the second \<^verbatim>\<open>Vary\<close> have been added as well. A
  request whose method is literally allowed and is not \<^verbatim>\<open>OPTIONS\<close> is passed on to the
  next handler. The configured methods, the configured origins and the origin of the
  request are ASCII text, on which the models of \<^verbatim>\<open>bytes.ToUpper\<close> and of the origin
  matchers are exact.
\<close>

theorem method_looked_up_as_received:
  assumes "initialize config = Inr c"
    and "isASCII (AllowedMethods config)"
    and "isASCII (AllowedOrigins config)"
    and "isASCII (Get (Header r) OriginHeader)"
    and "Get (Header r) OriginHeader \<noteq> []"
    and "isOriginAllowed c (Get (Header r) OriginHeader)"
  shows "(\<forall>m. isMethodAllowed c m \<longleftrightarrow>
               m \<in> set (Split (if AllowedMethods config = [] then DefaultAllowedMethods
                                else ToUpper (AllowedMethods config)) (CHR '',''))) \<and>
         (status (Filter config r) = Some (WriteHeader StatusMethodNotAllowed) \<longleftrightarrow>
            \<not> isMethodAllowed c (Method r) \<or>
            Method r = MethodOptions \<and>
            \<not> isMethodAllowed c (Get (Header r) AccessControlRequestMethod)) \<and>
         (\<not> isMethodAllowed c (Method r) \<longrightarrow>
            Filter config r =
              Inr \<lparr>Added = [(VaryHeader, OriginHeader)],
                   Outcome = WriteHeader StatusMethodNotAllowed\<rparr>) \<and>
         (Method r = MethodOptions \<and> isMethodAllowed c MethodOptions \<and>
          \<not> isMethodAllowed c (Get (Header r) AccessControlRequestMethod) \<longrightarrow>
            Filter config r =
              Inr \<lparr>Added = [(VaryHeader, OriginHeader),
                            (AccessControlAllowOrigin, Get (Header r) OriginHeader),
                            (VaryHeader, AccessControlRequestMethod @ '', '' @
                                         AccessControlRequestHeaders)],
                   Outcome = WriteHeader StatusMethodNotAllowed\<rparr>) \<and>
         (isMethodAllowed c (Method r) \<and> Method r \<noteq> MethodOptions \<longrightarrow>
            status (Filter config r) = Some ServeNext)"
proof -
  have a: "isMethodAllowed c m \<longleftrightarrow>
          m \<in> set (Split (if AllowedMethods config = [] then DefaultAllowedMethods
                           else ToUpper (AllowedMethods config)) (CHR '',''))" for m
    unfolding isMethodAllowed_def initialize_scalars(8)[OF assms(1)] by (rule index_allowed)
  have f: "Filter config r = filter_cors c r"
    using assms(1) by (simp add: Filter_def)
  have b: "status (filter_cors c r) = Some (WriteHeader StatusMethodNotAllowed) \<longleftrightarrow>
            \<not> isMethodAllowed c (Method r) \<or>
            Method r = MethodOptions \<and>
            \<not> isMethodAllowed c (Get (Header r) AccessControlRequestMethod)"
    using assms(5,6) unfolding filter_cors_def preflight_def Let_def status_def
    by (auto simp: statusCodes split: sum.splits)
  have d: "filter_cors c r =
              Inr \<lparr>Added = [(VaryHeader, OriginHeader)],
                   Outcome = WriteHeader StatusMethodNotAllowed\<rparr>"
    if "\<not> isMethodAllowed c (Method r)"
    using that assms(5,6) unfolding filter_cors_def Let_def by simp
  have e: "filter_cors c r =
              Inr \<lparr>Added = [(VaryHeader, OriginHeader),
                            (AccessControlAllowOrigin, Get (Header r) OriginHeader),
                            (VaryHeader, AccessControlRequestMethod @ '', '' @
                                         AccessControlRequestHeaders)],
                   Outcome = WriteHeader StatusMethodNotAllowed\<rparr>"
    if "Method r = MethodOptions" "isMethodAllowed c MethodOptions"
      "\<not> isMethodAllowed c (Get (Header r) AccessControlRequestMethod)"
    using that assms(5,6) unfolding filter_cors_def preflight_def Let_def by simp
  have g: "status (filter_cors c r) = Some ServeNext"
    if "isMethodAllowed c (Method r)" "Method r \<noteq> MethodOptions"
    using that assms(5,6) unfolding filter_cors_def Let_def status_def by simp
  from a b d e g show ?thesis unfolding f by blast
qed

text \<open>The default methods: \<^verbatim>\<open>get\<close> is refused as the method of a request and as
  the value of \<^verbatim>\<open>Access-Control-Request-Method\<close>, \<^verbatim>\<open>GET\<close> is served.\<close>

theorem method_looked_up_as_received_witness:
  "\<exists>c. initialize zeroConfig = Inr c \<and>
       isASCII (AllowedMethods zeroConfig) \<and> isASCII (AllowedOrigins zeroConfig) \<and>
       isASCII ''http://example.com'' \<and>
       isOriginAllowed c ''http://example.com'' \<and>
       isMethodAllowed c ''GET'' \<and> \<not> isMethodAllowed c ''get'' \<and>
       isMethodAllowed c MethodOptions \<and>
       Filter zeroConfig \<lparr>Method = ''get'', Header = [(''Origin'', ''http://example.com'')]\<rparr> =
         Inr \<lparr>Added = [(VaryHeader, OriginHeader)],
              Outcome = WriteHeader StatusMethodNotAllowed\<rparr> \<and>
       status (Filter zeroConfig
                 \<lparr>Method = ''GET'', Header = [(''Origin'', ''http://example.com'')]\<rparr>) =
         Some ServeNext \<and>
       status (Filter zeroConfig
                 \<lparr>Method = ''OPTIONS'',
                  Header = [(''Origin'', ''http://example.com''),
                            (''Access-Control-Request-Method'', ''get'')]\<rparr>) =
         Some (WriteHeader StatusMethodNotAllowed)"
proof -
  let ?lo = "\<lparr>Method = ''get'', Header = [(''Origin'', ''http://example.com'')]\<rparr>"
  let ?up = "\<lparr>Method = ''GET'', Header = [(''Origin'', ''http://example.com'')]\<rparr>"
  let ?pf = "\<lparr>Method = ''OPTIONS'',
              Header = [(''Origin'', ''http://example.com''),
                        (''Access-Control-Request-Method'', ''get'')]\<rparr>"
  have "case initialize zeroConfig of
          Inl p \<Rightarrow> False | Inr c \<Rightarrow> isOriginAllowed c ''http://example.com''"
    by code_simp
  then obtain c where c: "initialize zeroConfig = Inr c"
    "isOriginAllowed c ''http://example.com''"
    by (auto split: sum.splits)
  have s: "Split DefaultAllowedMethods (CHR '','') = [''GET'', ''POST'', ''HEAD'', ''OPTIONS'']"
    by code_simp
  have z: "AllowedMethods zeroConfig = []" "AllowedOrigins zeroConfig = []"
    by (simp_all add: zeroConfig_def)
  have i: "isASCII (AllowedMethods zeroConfig)" "isASCII (AllowedOrigins zeroConfig)"
    unfolding z by (simp_all add: isASCII_def)
  have j: "isASCII ''http://example.com''" by code_simp
  have g: "Get (Header ?lo) OriginHeader = ''http://example.com''"
    "Get (Header ?up) OriginHeader = ''http://example.com''"
    "Get (Header ?pf) OriginHeader = ''http://example.com''"
    "Get (Header ?pf) AccessControlRequestMethod = ''get''"
    by (simp_all add: Get_def OriginHeader_def AccessControlRequestMethod_def)
  have h: "isASCII (Get (Header ?lo) OriginHeader)" "Get (Header ?lo) OriginHeader \<noteq> []"
    "isOriginAllowed c (Get (Header ?lo) OriginHeader)"
    "isASCII (Get (Header ?up) OriginHeader)" "Get (Header ?up) OriginHeader \<noteq> []"
    "isOriginAllowed c (Get (Header ?up) OriginHeader)"
    "isASCII (Get (Header ?pf) OriginHeader)" "Get (Header ?pf) OriginHeader \<noteq> []"
    "isOriginAllowed c (Get (Header ?pf) OriginHeader)"
    unfolding g using j c(2) by simp_all
  note tlo = method_looked_up_as_received[OF c(1) i h(1,2,3)]
  note tup = method_looked_up_as_received[OF c(1) i h(4,5,6)]
  note tpf = method_looked_up_as_received[OF c(1) i h(7,8,9)]
  from tlo z s have m: "isMethodAllowed c ''GET''" "\<not> isMethodAllowed c ''get''"
    "isMethodAllowed c MethodOptions"
    by (simp_all add: MethodOptions_def)
  have mlo: "\<not> isMethodAllowed c (Method ?lo)" using m(2) by simp
  have mup: "isMethodAllowed c (Method ?up)" "Method ?up \<noteq> MethodOptions"
    using m(1) by (simp_all add: MethodOptions_def)
  have mpf: "Method ?pf = MethodOptions"
    "\<not> isMethodAllowed c (Get (Header ?pf) AccessControlRequestMethod)"
    unfolding g using m(2) by (simp_all add: MethodOptions_def)
  from tlo mlo have 1: "Filter zeroConfig ?lo =
      Inr \<lparr>Added = [(VaryHeader, OriginHeader)],
           Outcome = WriteHeader StatusMethodNotAllowed\<rparr>" by blast
  from tup mup have 2: "status (Filter zeroConfig ?up) = Some ServeNext" by blast
  from tpf mpf have 3: "status (Filter zeroConfig ?pf) =
      Some (WriteHeader StatusMethodNotAllowed)" by blast
  from c i j m 1 2 3 show ?thesis by blast
qed

section \<open>A preflight request for a method that is not allowed\<close>

text \<open>
  C5, as claimed: with \<^verbatim>\<open>AllowedOrigins: "http://foobar.com"\<close> and
  \<^verbatim>\<open>AllowedMethods: "PUT,DELETE,OPTIONS"\<close>, the preflight request from
  \<^verbatim>\<open>http://foobar.com\<close> that asks for \<^verbatim>\<open>PATCH\<close> is answered 405 without an
  \<^verbatim>\<open>Access-Control-Allow-Origin\<close> field. The status is 405, but the field is there.
\<close>

theorem disallowed_preflight_has_allow_origin_counterexample:
  "\<not> (status (Filter (zeroConfig\<lparr>AllowedOrigins := ''http://foobar.com'',
                                   AllowedMethods := ''PUT,DELETE,OPTIONS''\<rparr>)
                 \<lparr>Method = ''OPTIONS'',
                  Header = [(''Origin'', ''http://foobar.com''),
                            (''Access-Control-Request-Method'', ''PATCH'')]\<rparr>) =
         Some (WriteHeader 405) \<and>
       AccessControlAllowOrigin \<notin>
         set (fields (Filter (zeroConfig\<lparr>AllowedOrigins := ''http://foobar.com'',
                                          AllowedMethods := ''PUT,DELETE,OPTIONS''\<rparr>)
                        \<lparr>Method = ''OPTIONS'',
                         Header = [(''Origin'', ''http://foobar.com''),
                                   (''Access-Control-Request-Method'', ''PATCH'')]\<rparr>)))"
  by code_simp

text \<open>
  C5, amended: the response has status 405 and carries \<^verbatim>\<open>Vary: Origin\<close>,
  \<^verbatim>\<open>Access-Control-Allow-Origin: http://foobar.com\<close>, which the handler adds once the
  origin and the method \<^verbatim>\<open>OPTIONS\<close> have passed, and the second \<^verbatim>\<open>Vary\<close> of the
  preflight branch; it carries no other field.
\<close>

theorem disallowed_preflight_response:
  "Filter (zeroConfig\<lparr>AllowedOrigins := ''http://foobar.com'',
                       AllowedMethods := ''PUT,DELETE,OPTIONS''\<rparr>)
     \<lparr>Method = ''OPTIONS'',
      Header = [(''Origin'', ''http://foobar.com''),
                (''Access-Control-Request-Method'', ''PATCH'')]\<rparr> =
   Inr \<lparr>Added = [(''Vary'', ''Origin''),
                 (''Access-Control-Allow-Origin'', ''http://foobar.com''),
                 (''Vary'', ''Access-Control-Request-Method, Access-Control-Request-Headers'')],
        Outcome = WriteHeader 405\<rparr>"
  by code_simp

section \<open>Allow-all-headers\<close>

text \<open>
  C10. The echo mode \<^verbatim>\<open>allowAllHeaders\<close> is on exactly when \<^verbatim>\<open>AllowedHeaders\<close> is
  the one-character string \<^verbatim>\<open>*\<close>. Any other non-empty value is normalized as a header
  list, whose tokens are the allowed headers, and is kept as the string to emit; so
  \<^verbatim>\<open>" * "\<close> and \<^verbatim>\<open>"*,X-Header"\<close> make \<^verbatim>\<open>*\<close> a token of the list. Every preflight
  that succeeds (answered 200, or passed on to the next handler) carries
  \<^verbatim>\<open>Access-Control-Allow-Headers\<close>, and whenever the handler adds this field, its value
  is the value of the request's \<^verbatim>\<open>Access-Control-Request-Headers\<close> if
  \<^verbatim>\<open>AllowedHeaders\<close> is \<^verbatim>\<open>*\<close>, and the compiled string otherwise.
\<close>

theorem allow_all_headers_only_for_star:
  assumes "initialize config = Inr c"
  shows "(allowAllHeaders c \<longleftrightarrow> AllowedHeaders config = ''*'') \<and>
         (AllowedHeaders config \<noteq> [] \<and> AllowedHeaders config \<noteq> ''*'' \<longrightarrow>
            (\<exists>hs. normalizeHeaders (AllowedHeaders config) = Inr hs \<and>
                  (\<forall>h. index (allowedHeaders c) h \<longleftrightarrow> h \<in> set hs)) \<and>
            allowedHeadersString c = AllowedHeaders config) \<and>
         normalizeHeaders '' * '' = Inr [''*''] \<and>
         normalizeHeaders ''*,X-Header'' = Inr [''*'', ''x-header''] \<and>
         (\<forall>w. Filter config r = Inr w \<and>
               (Outcome w = WriteHeader StatusOK \<or>
                Outcome w = ServeNext \<and> Method r = MethodOptions \<and>
                Get (Header r) OriginHeader \<noteq> []) \<longrightarrow>
               AccessControlAllowHeaders \<in> set (map fst (Added w))) \<and>
         (\<forall>w. Filter config r = Inr w \<and>
               AccessControlAllowHeaders \<in> set (map fst (Added w)) \<longrightarrow>
               valuesOf AccessControlAllowHeaders (Inr w) =
                 [if AllowedHeaders config = ''*''
                  then Get (Header r) AccessControlRequestHeaders
                  else allowedHeadersString c])"
proof -
  have a: "allowAllHeaders c \<longleftrightarrow> AllowedHeaders config = ''*''"
    by (rule initialize_scalars(4)[OF assms])
  have b: "(\<exists>hs. normalizeHeaders (AllowedHeaders config) = Inr hs \<and>
                 (\<forall>h. index (allowedHeaders c) h \<longleftrightarrow> h \<in> set hs)) \<and>
           allowedHeadersString c = AllowedHeaders config"
    if n: "AllowedHeaders config \<noteq> []" "AllowedHeaders config \<noteq> ''*''"
  proof -
    from initialize_allowedHeaders[OF assms n] obtain hs where
      hs: "normalizeHeaders (AllowedHeaders config) = Inr hs" "allowedHeaders c = allowed hs"
      by blast
    have "index (allowedHeaders c) h \<longleftrightarrow> h \<in> set hs" for h
      unfolding hs(2) by (rule index_allowed)
    with hs(1) initialize_scalars(10)[OF assms] n show ?thesis by auto
  qed
  have e1: "normalizeHeaders '' * '' = Inr [''*'']" by code_simp
  have e2: "normalizeHeaders ''*,X-Header'' = Inr [''*'', ''x-header'']" by code_simp
  have d: "valuesOf AccessControlAllowHeaders (Inr w) =
             [if AllowedHeaders config = ''*''
              then Get (Header r) AccessControlRequestHeaders
              else allowedHeadersString c]"
    if w: "Filter config r = Inr w"
      and m: "AccessControlAllowHeaders \<in> set (map fst (Added w))" for w
  proof -
    from w assms have "filter_cors c r = Inr w" by (simp add: Filter_def)
    from filter_cors_allow_headers[OF this m] a show ?thesis by simp
  qed
  have s: "AccessControlAllowHeaders \<in> set (map fst (Added w))"
    if w: "Filter config r = Inr w"
      and m: "Outcome w = WriteHeader StatusOK \<or>
              Outcome w = ServeNext \<and> Method r = MethodOptions \<and>
              Get (Header r) OriginHeader \<noteq> []" for w
  proof -
    from w assms have "filter_cors c r = Inr w" by (simp add: Filter_def)
    from filter_cors_preflight_success[OF this m] show ?thesis .
  qed
  from a b e1 e2 s d show ?thesis by blast
qed

text \<open>The value \<^verbatim>\<open>"*,X-Header"\<close>: the preflight that asks for \<^verbatim>\<open>x-header\<close> is
  answered with the configured string.\<close>

theorem allow_all_headers_only_for_star_witness:
  "\<exists>c. initialize (zeroConfig\<lparr>AllowedHeaders := ''*,X-Header''\<rparr>) = Inr c \<and>
       \<not> allowAllHeaders c \<and> index (allowedHeaders c) ''*'' \<and>
       index (allowedHeaders c) ''x-header'' \<and>
       allowedHeadersString c = ''*,X-Header'' \<and>
       valuesOf AccessControlAllowHeaders
         (Filter (zeroConfig\<lparr>AllowedHeaders := ''*,X-Header''\<rparr>)
            \<lparr>Method = ''OPTIONS'',
             Header = [(''Origin'', ''http://example.com''),
                       (''Access-Control-Request-Method'', ''GET''),
                       (''Access-Control-Request-Headers'', ''X-Header'')]\<rparr>) =
         [''*,X-Header'']"
proof -
  let ?cfg = "zeroConfig\<lparr>AllowedHeaders := ''*,X-Header''\<rparr>"
  let ?r = "\<lparr>Method = ''OPTIONS'',
             Header = [(''Origin'', ''http://example.com''),
                       (''Access-Control-Request-Method'', ''GET''),
                       (''Access-Control-Request-Headers'', ''X-Header'')]\<rparr>"
  have "case initialize ?cfg of Inl p \<Rightarrow> False | Inr c \<Rightarrow> True"
    by code_simp
  then obtain c where c: "initialize ?cfg = Inr c" by (auto split: sum.splits)
  have "case Filter ?cfg ?r of
          Inl p \<Rightarrow> False
        | Inr w \<Rightarrow> ''Access-Control-Allow-Headers'' \<in> set (map fst (Added w))"
    by code_simp
  then obtain w where w: "Filter ?cfg ?r = Inr w"
    "AccessControlAllowHeaders \<in> set (map fst (Added w))"
    by (auto simp: AccessControlAllowHeaders_def split: sum.splits)
  have h: "AllowedHeaders ?cfg = ''*,X-Header''" by (simp add: zeroConfig_def)
  note t = allow_all_headers_only_for_star[OF c, of ?r]
  from t h have n: "\<not> allowAllHeaders c" "allowedHeadersString c = ''*,X-Header''"
    by simp_all
  from t h have i: "index (allowedHeaders c) ''*''" "index (allowedHeaders c) ''x-header''"
    by auto
  from t h w have "valuesOf AccessControlAllowHeaders (Filter ?cfg ?r) = [allowedHeadersString c]"
    by auto
  with c n i show ?thesis by auto
qed

section \<open>Origins: the suffix bucket and the classification\<close>

text \<open>
  C1. The claim: a pattern \<^verbatim>\<open>*.example.com\<close> accepts an origin exactly when it ends
  with \<^verbatim>\<open>.example.com\<close>, dot included, so \<^verbatim>\<open>http://fooexample.com\<close> is rejected.
  \<^verbatim>\<open>initialize\<close> stores \<^verbatim>\<open>o[2:len(o)]\<close>, that is \<^verbatim>\<open>example.com\<close> without the dot, and
  \<^verbatim>\<open>isOriginAllowed\<close> tests \<^verbatim>\<open>strings.HasSuffix\<close> on it: the request from
  \<^verbatim>\<open>http://fooexample.com\<close> is given \<^verbatim>\<open>Access-Control-Allow-Origin\<close> and passed on.
  The same entry behind a space, \<^verbatim>\<open>" *.example.com"\<close>, does not start with \<^verbatim>\<open>*.\<close>
  and is compiled by the third branch to \<^verbatim>\<open>.*\.example\.com\<close>, which keeps the dot:
  there \<^verbatim>\<open>http://foo.example.com\<close> is accepted and \<^verbatim>\<open>http://fooexample.com\<close> is
  answered 403.
\<close>

theorem suffix_pattern_accepts_without_dot:
  "(case initialize (zeroConfig\<lparr>AllowedOrigins := ''*.example.com''\<rparr>) of
      Inl p \<Rightarrow> False
    | Inr c \<Rightarrow> allowedSuffixOrigins c = [''example.com''] \<and>
              allowedStaticOrigins c = [] \<and> allowedRegexOrigins c = [] \<and>
              isOriginAllowed c ''http://foo.example.com'' \<and>
              isOriginAllowed c ''http://fooexample.com'') \<and>
   Filter (zeroConfig\<lparr>AllowedOrigins := ''*.example.com''\<rparr>)
     \<lparr>Method = ''GET'', Header = [(''Origin'', ''http://fooexample.com'')]\<rparr> =
     Inr \<lparr>Added = [(''Vary'', ''Origin''),
                   (''Access-Control-Allow-Origin'', ''http://fooexample.com'')],
          Outcome = ServeNext\<rparr> \<and>
   Filter (zeroConfig\<lparr>AllowedOrigins := '' *.example.com''\<rparr>)
     \<lparr>Method = ''GET'', Header = [(''Origin'', ''http://foo.example.com'')]\<rparr> =
     Inr \<lparr>Added = [(''Vary'', ''Origin''),
                   (''Access-Control-Allow-Origin'', ''http://foo.example.com'')],
          Outcome = ServeNext\<rparr> \<and>
   Filter (zeroConfig\<lparr>AllowedOrigins := '' *.example.com''\<rparr>)
     \<lparr>Method = ''GET'', Header = [(''Origin'', ''http://fooexample.com'')]\<rparr> =
     Inr \<lparr>Added = [(''Vary'', ''Origin'')], Outcome = WriteHeader 403\<rparr>"
  by code_simp

text \<open>
  C8. The claim: every entry of the origins is trimmed, an entry with neither \<^verbatim>\<open>*\<close>
  nor \<^verbatim>\<open>?\<close> is matched exactly, and an entry with \<^verbatim>\<open>?\<close> but no \<^verbatim>\<open>*\<close> is matched as
  a pattern. The first test of the loop, \<^verbatim>\<open>strings.IndexAny(o, "*") == -1\<close>, looks
  for \<^verbatim>\<open>*\<close> only, so \<^verbatim>\<open>http://fo?.com\<close> goes to the static bucket and
  \<^verbatim>\<open>http://foo.com\<close> is refused, although the pattern the third branch would compile
  matches it. \<^verbatim>\<open>strings.TrimSpace\<close> is applied in the third branch only, so the
  second entry of \<^verbatim>\<open>"http://a.com, http://b.com"\<close> is stored with its space and
  \<^verbatim>\<open>http://b.com\<close> is refused.
\<close>

theorem question_mark_and_spaces_in_static_bucket:
  "(case initialize (zeroConfig\<lparr>AllowedOrigins := ''http://fo?.com''\<rparr>) of
      Inl p \<Rightarrow> False
    | Inr c \<Rightarrow> allowedStaticOrigins c = [''http://fo?.com''] \<and>
              allowedSuffixOrigins c = [] \<and> allowedRegexOrigins c = [] \<and>
              \<not> isOriginAllowed c ''http://foo.com'') \<and>
   (case MustCompile (Replace (Replace (QuoteMeta (TrimSpace ''http://fo?.com''))
                        [backslash, CHR ''*''] ''.*'') [backslash, CHR ''?''] ''.'') of
      None \<Rightarrow> False
    | Some re \<Rightarrow> MatchString re ''http://foo.com'') \<and>
   Filter (zeroConfig\<lparr>AllowedOrigins := ''http://fo?.com''\<rparr>)
     \<lparr>Method = ''GET'', Header = [(''Origin'', ''http://foo.com'')]\<rparr> =
     Inr \<lparr>Added = [(''Vary'', ''Origin'')], Outcome = WriteHeader 403\<rparr> \<and>
   (case initialize (zeroConfig\<lparr>AllowedOrigins := ''http://a.com, http://b.com''\<rparr>) of
      Inl p \<Rightarrow> False
    | Inr c \<Rightarrow> allowedStaticOrigins c = [''http://a.com'', '' http://b.com''] \<and>
              \<not> isOriginAllowed c ''http://b.com'') \<and>
   Filter (zeroConfig\<lparr>AllowedOrigins := ''http://a.com, http://b.com''\<rparr>)
     \<lparr>Method = ''GET'', Header = [(''Origin'', ''http://b.com'')]\<rparr> =
     Inr \<lparr>Added = [(''Vary'', ''Origin'')], Outcome = WriteHeader 403\<rparr>"
  by code_simp

section \<open>Max-age\<close>

text \<open>
  C9. The claim: \<^verbatim>\<open>MaxAge: 0\<close> suppresses \<^verbatim>\<open>Access-Control-Max-Age\<close>, and the default
  is 1800. \<^verbatim>\<open>initialize\<close> replaces the default \<^verbatim>\<open>"1800"\<close> only \<^verbatim>\<open>if config.MaxAge > 0\<close>,
  so with \<^verbatim>\<open>MaxAge: 0\<close> the compiled string is \<^verbatim>\<open>"1800"\<close>, the test
  \<^verbatim>\<open>c.maxAge != "0"\<close> of the handler holds, and the preflight of \<^verbatim>\<open>TestMaxAge\<close> is
  answered with \<^verbatim>\<open>Access-Control-Max-Age: 1800\<close>.
\<close>

theorem max_age_zero_not_suppressed:
  "Filter (zeroConfig\<lparr>AllowedOrigins := ''http://example.com'',
                       AllowedMethods := ''GET,OPTIONS'', MaxAge := 0\<rparr>)
     \<lparr>Method = ''OPTIONS'',
      Header = [(''Origin'', ''http://example.com''),
                (''Access-Control-Request-Method'', ''GET'')]\<rparr> =
   Inr \<lparr>Added = [(''Vary'', ''Origin''),
                 (''Access-Control-Allow-Origin'', ''http://example.com''),
                 (''Vary'', ''Access-Control-Request-Method, Access-Control-Request-Headers''),
                 (''Access-Control-Allow-Methods'', ''GET,OPTIONS''),
                 (''Access-Control-Allow-Headers'',
                  ''Origin,Accept,Content-Type,Accept-Language,Content-Language,Last-Event-ID''),
                 (''Access-Control-Max-Age'', ''1800'')],
        Outcome = WriteHeader 200\<rparr>"
  by code_simp

end
